theory Spec2Isabelle
  imports Main
begin

section \<open>Python string operations used by the handlers\<close>

text \<open>
  Python strings are modelled as \<open>string\<close> (lists of 8-bit characters). The texts the
  handlers inspect (hexadecimal hashes, header values, the output of the \<open>file\<close>
  command on a hash-named path) are ASCII; characters above 127 are carried along unchanged
  and are never white space or letters.
\<close>

type_synonym path = string
type_synonym bytes = string

text \<open>\<open>needle in hay\<close>: \<open>needle\<close> occurs as a contiguous substring of \<open>hay\<close>.\<close>

fun str_in :: "string \<Rightarrow> string \<Rightarrow> bool" where
  "str_in needle [] = (needle = [])"
| "str_in needle (c # cs) = (take (length needle) (c # cs) = needle \<or> str_in needle cs)"

text \<open>\<open>s.endswith(suf)\<close>\<close>

definition endswith :: "string \<Rightarrow> string \<Rightarrow> bool" where
  "endswith s suf = (length suf \<le> length s \<and> drop (length s - length suf) s = suf)"

text \<open>\<open>s.rstrip(c)\<close> for a one-character argument.\<close>

definition rstrip :: "char \<Rightarrow> string \<Rightarrow> string" where
  "rstrip c s = rev (dropWhile (\<lambda>x. x = c) (rev s))"


text \<open>\<open>s.split(c)[-1]\<close>: what follows the last occurrence of \<open>c\<close> (all of \<open>s\<close> if none).\<close>

definition after_last :: "char \<Rightarrow> string \<Rightarrow> string" where
  "after_last c s = rev (takeWhile (\<lambda>x. x \<noteq> c) (rev s))"


text \<open>ASCII white space, as \<open>str.isspace\<close> sees it below code point 128.\<close>

definition is_space :: "char \<Rightarrow> bool" where
  "is_space c = (c \<in> set [CHR '' '', CHR 0x09, CHR 0x0A, CHR 0x0B, CHR 0x0C, CHR 0x0D,
                           CHR 0x1C, CHR 0x1D, CHR 0x1E, CHR 0x1F])"

text \<open>\<open>s.split()\<close>: the maximal runs of non-space characters. \<open>tok\<close> is the run being read.\<close>

fun split_ws_from :: "string \<Rightarrow> string \<Rightarrow> string list" where
  "split_ws_from tok [] = (if tok = [] then [] else [tok])"
| "split_ws_from tok (c # cs) =
     (if is_space c then (if tok = [] then split_ws_from [] cs else tok # split_ws_from [] cs)
      else split_ws_from (tok @ [c]) cs)"

definition split_ws :: "string \<Rightarrow> string list" where
  "split_ws s = split_ws_from [] s"

text \<open>
  \<open>s.split(None, 1)\<close>: the first run of non-space characters, then the rest of the string
  with its leading white space removed (trailing white space kept); the rest is left out
  when it is empty.
\<close>

definition split_ws1 :: "string \<Rightarrow> string list" where
  "split_ws1 s =
     (let s1 = dropWhile is_space s in
      if s1 = [] then []
      else (let tok = takeWhile (\<lambda>c. \<not> is_space c) s1;
                r = dropWhile is_space (dropWhile (\<lambda>c. \<not> is_space c) s1)
            in if r = [] then [tok] else [tok, r]))"

text \<open>\<open>s.lower()\<close> on ASCII letters.\<close>

definition lower_char :: "char \<Rightarrow> char" where
  "lower_char c =
     (case map_of (zip ''ABCDEFGHIJKLMNOPQRSTUVWXYZ'' ''abcdefghijklmnopqrstuvwxyz'') c of
        Some l \<Rightarrow> l
      | None \<Rightarrow> c)"

definition lower :: "string \<Rightarrow> string" where
  "lower s = map lower_char s"

text \<open>\<open>os.path.join(a, b)\<close> of \<open>posixpath\<close>.\<close>

definition os_path_join :: "path \<Rightarrow> path \<Rightarrow> path" where
  "os_path_join a b =
     (if take 1 b = ''/'' then b
      else if a = [] \<or> endswith a ''/'' then a @ b
      else a @ ''/'' @ b)"

section \<open>Errors and responses\<close>

text \<open>
  Exceptions leaving a handler. \<open>HTTPError n\<close> is \<open>tornado.web.HTTPError(n)\<close>; the others
  are not caught by the handlers and make the framework answer 500.
\<close>

datatype error = HTTPError nat | ValueError | CalledProcessError | OSError

fun status_of_error :: "error \<Rightarrow> nat" where
  "status_of_error (HTTPError n) = n"
| "status_of_error ValueError = 500"
| "status_of_error CalledProcessError = 500"
| "status_of_error OSError = 500"

section \<open>HashHandler: the canonical redirector\<close>



section \<open>The world around the handlers\<close>

text \<open>
  The data directory holds files and directories. Every effect of a handler on the outside
  is appended to a trace, so that theorems can speak about which effects happened and in
  which order. The number of events so far serves as the time at which an external
  operation runs, and the outcome of an external operation may depend on it.
\<close>

datatype node = File bytes | Dir

type_synonym filesystem = "path \<rightharpoonup> node"

datatype event =
    AddUser string
  | AddImage nat string
  | Mkdir path
  | OpenWrite path
  | RunFile "string list"
  | RunDwebp path path

text \<open>
  \<open>open(fpath, 'wb')\<close> followed by \<open>write\<close>: it succeeds, or raises \<open>IOError\<close> leaving
  either no file (the open failed) or a file with whatever was written before the error.
\<close>

datatype io_outcome = IoOk | IoError "bytes option"

text \<open>
  \<open>subprocess.check_output\<close>: the decoded output, or an exception (non-zero exit status).
\<close>

datatype cmd_result = CmdOutput string | CmdFailed

text \<open>
  The parts of the environment that are not code of this repository. \<open>dwebp_cmd\<close> gives
  the exit status of \<open>dwebp webp -o png\<close> and what it left at \<open>png\<close>, if anything.
\<close>

record env =
  datadir :: path
  sha1_hexdigest :: "bytes \<Rightarrow> string"
  mimetypes_guess_extension :: "string \<Rightarrow> string option"
  file_cmd :: "nat \<Rightarrow> string list \<Rightarrow> filesystem \<Rightarrow> cmd_result"
  dwebp_cmd :: "nat \<Rightarrow> path \<Rightarrow> path \<Rightarrow> filesystem \<Rightarrow> int \<times> bytes option"
  write_outcome :: "nat \<Rightarrow> path \<Rightarrow> bytes \<Rightarrow> io_outcome"
  mkdir_ok :: "nat \<Rightarrow> path \<Rightarrow> bool"

record user =
  user_id :: nat
  blocked :: bool

record state =
  fs :: filesystem
  mime_cache :: "(path \<times> string \<times> string option) list"
  users :: "(string \<times> user) list"
  images :: "(nat \<times> string) list"
  trace :: "event list"

definition now :: "state \<Rightarrow> nat" where
  "now s = length (trace s)"

definition emit :: "event \<Rightarrow> state \<Rightarrow> state" where
  "emit e s = s\<lparr>trace := trace s @ [e]\<rparr>"

definition os_path_exists :: "state \<Rightarrow> path \<Rightarrow> bool" where
  "os_path_exists s p = (fs s p \<noteq> None)"

subsection \<open>The user-tracking collaborator\<close>

text \<open>
  Modelled from the spec: the module \<open>models\<close> is not among the sources. The spec describes
  it as a record keyed by client address with a blocked flag and a list of uploaded hashes,
  consulted before an upload is accepted and updated after. A new user is not blocked and
  gets an identifier no other user has.
\<close>

definition get_user_by_ip :: "state \<Rightarrow> string \<Rightarrow> user option" where
  "get_user_by_ip s ip = map_of (users s) ip"

definition add_user :: "string \<Rightarrow> state \<Rightarrow> nat \<times> state" where
  "add_user ip s =
     (let uid = Suc (fold max (map (\<lambda>(_, u). user_id u) (users s)) 0)
      in (uid, emit (AddUser ip)
                 (s\<lparr>users := users s @ [(ip, \<lparr>user_id = uid, blocked = False\<rparr>)]\<rparr>)))"

definition add_image :: "nat \<Rightarrow> string \<Rightarrow> state \<Rightarrow> state" where
  "add_image uid h s = emit (AddImage uid h) (s\<lparr>images := images s @ [(uid, h)]\<rparr>)"

section \<open>TypeSniffer\<close>

definition run_file :: "env \<Rightarrow> string list \<Rightarrow> state \<Rightarrow> cmd_result \<times> state" where
  "run_file env args s = (file_cmd env (now s) args (fs s), emit (RunFile args) s)"

text \<open>
  Unpacking a list into exactly three, or exactly two, names; Python raises \<open>ValueError\<close>
  for any other length.
\<close>

definition unpack3 :: "'a list \<Rightarrow> ('a \<times> 'a \<times> 'a) option" where
  "unpack3 xs = (case xs of [a, b, c] \<Rightarrow> Some (a, b, c) | _ \<Rightarrow> None)"

definition unpack2 :: "'a list \<Rightarrow> ('a \<times> 'a) option" where
  "unpack2 xs = (case xs of [a, b] \<Rightarrow> Some (a, b) | _ \<Rightarrow> None)"

text \<open>The body of \<open>guess_mime_using_file\<close>, without the memoisation.\<close>

definition guess_mime_using_file ::
  "env \<Rightarrow> path \<Rightarrow> state \<Rightarrow> (error + string \<times> string option) \<times> state" where
  "guess_mime_using_file env path s =
     (case run_file env [''file'', ''-i'', path] s of
        (CmdFailed, s1) \<Rightarrow> (Inl CalledProcessError, s1)
      | (CmdOutput result, s1) \<Rightarrow>
          (case unpack3 (split_ws result) of
             None \<Rightarrow> (Inl ValueError, s1)
           | Some (_, mime0, encoding0) \<Rightarrow>
               (let mime = rstrip CHR '';'' mime0;
                    encoding = after_last CHR ''='' encoding0;
                    normal = (mime, if encoding \<noteq> ''gzip'' then None else Some encoding)
                in if mime = ''application/octet-stream''
                   then (case run_file env [''file'', path] s1 of
                           (CmdFailed, s2) \<Rightarrow> (Inl CalledProcessError, s2)
                         | (CmdOutput result2, s2) \<Rightarrow>
                             (case unpack2 (split_ws1 result2) of
                                None \<Rightarrow> (Inl ValueError, s2)
                              | Some (_, desc) \<Rightarrow>
                                  if str_in ''Web/P image'' desc
                                  then (Inr (''image/webp'', None), s2)
                                  else (Inr normal, s2)))
                   else (Inr normal, s1))))"

text \<open>
  \<open>@lru_cache()\<close>: at most 128 results, most recently used first. A hit moves the entry to
  the front; a miss runs the body and stores its result, dropping the least recently used
  entry when full; an exception stores nothing.
\<close>

definition lru_maxsize :: nat where
  "lru_maxsize = 128"

definition guess_type ::
  "env \<Rightarrow> path \<Rightarrow> state \<Rightarrow> (error + string \<times> string option) \<times> state" where
  "guess_type env path s =
     (case map_of (mime_cache s) path of
        Some v \<Rightarrow>
          (Inr v, s\<lparr>mime_cache := (path, v) # filter (\<lambda>kv. fst kv \<noteq> path) (mime_cache s)\<rparr>)
      | None \<Rightarrow>
          (case guess_mime_using_file env path s of
             (Inl e, s1) \<Rightarrow> (Inl e, s1)
           | (Inr v, s1) \<Rightarrow>
               (Inr v, s1\<lparr>mime_cache := take lru_maxsize ((path, v) # mime_cache s1)\<rparr>)))"

definition guess_extension :: "env \<Rightarrow> string \<Rightarrow> string option" where
  "guess_extension env ftype =
     (if ftype = ''application/octet-stream'' then Some ''.bin''
      else if ftype = ''image/webp'' then Some ''.webp''
      else (let ext = mimetypes_guess_extension env ftype
            in if ext = Some ''.jpe'' \<or> ext = Some ''.jpeg'' then Some ''.jpg'' else ext))"

section \<open>IndexHandler.post: the upload handler\<close>

record upload =
  filename :: string
  body :: bytes

text \<open>
  \<open>self.request.files\<close> maps each form field to the list of files sent under it; only its
  values are used, in the order of the dictionary.
\<close>

record post_request =
  remote_ip :: string
  files :: "(string \<times> upload list) list"
  full_url :: string

text \<open>The status set on the response and the chunks written to it, one per \<open>self.write\<close>.\<close>

record post_response =
  post_status :: nat
  post_body :: "string list"

text \<open>
  \<open>ret\<close> is an \<open>OrderedDict\<close>: assigning to a key that is present replaces its value in
  place, assigning to a new key appends it.
\<close>

type_synonym ordered_dict = "(string \<times> string) list"

fun od_set :: "ordered_dict \<Rightarrow> string \<Rightarrow> string \<Rightarrow> ordered_dict" where
  "od_set [] k v = [(k, v)]"
| "od_set ((k', v') # kvs) k v = (if k' = k then (k, v) # kvs else (k', v') # od_set kvs k v)"

text \<open>\<open>if not os.path.exists(p): os.mkdir(p, 0o750)\<close>; a failing \<open>mkdir\<close> is not caught.\<close>

definition make_shard_dir :: "env \<Rightarrow> path \<Rightarrow> state \<Rightarrow> (error + unit) \<times> state" where
  "make_shard_dir env p s =
     (if \<not> os_path_exists s p
      then (if mkdir_ok env (now s) p
            then (Inr (), emit (Mkdir p) (s\<lparr>fs := (fs s)(p \<mapsto> Dir)\<rparr>))
            else (Inl OSError, emit (Mkdir p) s))
      else (Inr (), s))"

text \<open>
  The \<open>try\<close> block: \<open>True\<close> when the file was written, \<open>False\<close> when \<open>IOError\<close> was
  caught.
\<close>

definition write_file :: "env \<Rightarrow> path \<Rightarrow> bytes \<Rightarrow> state \<Rightarrow> bool \<times> state" where
  "write_file env fpath b s =
     (case write_outcome env (now s) fpath b of
        IoOk \<Rightarrow> (True, emit (OpenWrite fpath) (s\<lparr>fs := (fs s)(fpath \<mapsto> File b)\<rparr>))
      | IoError None \<Rightarrow> (False, emit (OpenWrite fpath) s)
      | IoError (Some part) \<Rightarrow>
          (False, emit (OpenWrite fpath) (s\<lparr>fs := (fs s)(fpath \<mapsto> File part)\<rparr>)))"

text \<open>
  The body of the loop over the files, for one file. The accumulator is \<open>ret\<close> and the
  status of the response (200 until \<open>set_status(500)\<close>).
\<close>

definition upload_one ::
  "env \<Rightarrow> nat \<Rightarrow> string \<Rightarrow> upload \<Rightarrow> ordered_dict \<times> nat \<Rightarrow> state
     \<Rightarrow> (error + ordered_dict \<times> nat) \<times> state" where
  "upload_one env uid url file acc s =
     (let (ret, status) = acc;
          h = sha1_hexdigest env (body file);
          s1 = add_image uid h s;
          d = take 2 h;
          f = drop 2 h;
          p = os_path_join (datadir env) d
      in case make_shard_dir env p s1 of
           (Inl e, s2) \<Rightarrow> (Inl e, s2)
         | (Inr _, s2) \<Rightarrow>
             (let fpath = os_path_join p f;
                  (written, s3) = (if \<not> os_path_exists s2 fpath
                                   then write_file env fpath (body file) s2
                                   else (True, s2))
              in if \<not> written
                 then (Inr (od_set ret (filename file) ''FAIL'', 500), s3)
                 else (case guess_type env fpath s3 of
                         (Inl e, s4) \<Rightarrow> (Inl e, s4)
                       | (Inr (ftype, _), s4) \<Rightarrow>
                           (let ext = (if ftype \<noteq> [] then guess_extension env ftype
                                       else None);
                                f = (case ext of
                                       Some e \<Rightarrow> (if e \<noteq> [] then f @ e else f)
                                     | None \<Rightarrow> f)
                            in (Inr (od_set ret (filename file)
                                       (rstrip CHR ''/'' url @ ''/'' @ d @ ''/'' @ f),
                                     status), s4)))))"

fun upload_all ::
  "env \<Rightarrow> nat \<Rightarrow> string \<Rightarrow> upload list \<Rightarrow> ordered_dict \<times> nat \<Rightarrow> state
     \<Rightarrow> (error + ordered_dict \<times> nat) \<times> state" where
  "upload_all env uid url [] acc s = (Inr acc, s)"
| "upload_all env uid url (file # rest) acc s =
     (case upload_one env uid url file acc s of
        (Inl e, s1) \<Rightarrow> (Inl e, s1)
      | (Inr acc1, s1) \<Rightarrow> upload_all env uid url rest acc1 s1)"

text \<open>The lines written at the end of \<open>post\<close>.\<close>

definition write_results :: "ordered_dict \<Rightarrow> string list" where
  "write_results ret =
     (if length ret > 1 then map (\<lambda>(k, v). k @ '': '' @ v @ [CHR 0x0A]) ret
      else if ret \<noteq> [] then [snd (hd ret) @ [CHR 0x0A]]
      else [])"

definition IndexHandler_post ::
  "env \<Rightarrow> post_request \<Rightarrow> state \<Rightarrow> (error + post_response) \<times> state" where
  "IndexHandler_post env req s =
     (let (who, s1) = (case get_user_by_ip s (remote_ip req) of
                         None \<Rightarrow> (let (uid, s') = add_user (remote_ip req) s in (Inr uid, s'))
                       | Some u \<Rightarrow> (if blocked u then (Inl (HTTPError 403), s)
                                   else (Inr (user_id u), s)))
      in case who of
           Inl e \<Rightarrow> (Inl e, s1)
         | Inr uid \<Rightarrow>
             if files req = [] then (Inl (HTTPError 400), s1)
             else (case upload_all env uid (full_url req) (concat (map snd (files req)))
                          ([], 200) s1 of
                     (Inl e, s2) \<Rightarrow> (Inl e, s2)
                   | (Inr (ret, status), s2) \<Rightarrow>
                       (Inr \<lparr>post_status = status, post_body = write_results ret\<rparr>, s2)))"

section \<open>MyStaticFileHandler: negotiated serving and the transcode cache\<close>

record get_request =
  request_method :: string
  headers :: "(string \<times> string) list"

record get_response =
  status :: nat
  out_headers :: "(string \<times> string) list"
  served :: path
  content :: bytes

text \<open>\<open>headers.get(name, default)\<close>\<close>

definition headers_get :: "(string \<times> string) list \<Rightarrow> string \<Rightarrow> string \<Rightarrow> string" where
  "headers_get hs name dflt = (case map_of hs name of Some v \<Rightarrow> v | None \<Rightarrow> dflt)"

subsection \<open>The framework's static file handler\<close>

text \<open>
  \<open>tornado.web.StaticFileHandler\<close>, as far as the subclass relies on it. The URL path comes
  from the route pattern (two hexadecimal digits, a slash, 38 more), so the absolute path is
  the data directory joined with it. A missing path is 404, a path that is not a regular
  file is 403. The content type is what \<open>mimetypes.guess_type\<close> says, which this program
  has replaced by its own sniffer. Conditional and range requests are left out: \<open>get\<close>
  answers 200 with the content of the file.
\<close>

definition get_absolute_path :: "env \<Rightarrow> path \<Rightarrow> path" where
  "get_absolute_path env path = os_path_join (datadir env) path"

definition validate_absolute_path :: "state \<Rightarrow> path \<Rightarrow> error + path" where
  "validate_absolute_path s absolute_path =
     (case fs s absolute_path of
        None \<Rightarrow> Inl (HTTPError 404)
      | Some Dir \<Rightarrow> Inl (HTTPError 403)
      | Some (File _) \<Rightarrow> Inr absolute_path)"

definition get_content_type :: "env \<Rightarrow> path \<Rightarrow> state \<Rightarrow> (error + string) \<times> state" where
  "get_content_type env absolute_path s =
     (case guess_type env absolute_path s of
        (Inl e, s1) \<Rightarrow> (Inl e, s1)
      | (Inr (mime_type, encoding), s1) \<Rightarrow>
          (Inr (if encoding = Some ''gzip'' then ''application/gzip''
                else if encoding \<noteq> None then ''application/octet-stream''
                else mime_type), s1))"

definition file_bytes :: "state \<Rightarrow> path \<Rightarrow> bytes" where
  "file_bytes s p = (case fs s p of Some (File b) \<Rightarrow> b | _ \<Rightarrow> [])"

definition StaticFileHandler_get ::
  "env \<Rightarrow> (string \<times> string) list \<Rightarrow> path \<Rightarrow> bool \<Rightarrow> state
     \<Rightarrow> (error + get_response) \<times> state" where
  "StaticFileHandler_get env hdrs path include_body s =
     (case validate_absolute_path s (get_absolute_path env path) of
        Inl e \<Rightarrow> (Inl e, s)
      | Inr absolute_path \<Rightarrow>
          (case get_content_type env absolute_path s of
             (Inl e, s1) \<Rightarrow> (Inl e, s1)
           | (Inr ct, s1) \<Rightarrow>
               (Inr \<lparr>status = 200,
                     out_headers = hdrs @ [(''Content-Type'', ct)],
                     served = absolute_path,
                     content = (if include_body then file_bytes s1 absolute_path else [])\<rparr>,
                s1)))"

subsection \<open>The subclass\<close>

text \<open>
  \<open>convert_webp\<close> runs \<open>dwebp\<close> and waits for it; \<open>wait_for_exit\<close> raises
  \<open>CalledProcessError\<close> on a non-zero exit status. Whatever the program wrote stays.
\<close>

definition convert_webp :: "env \<Rightarrow> path \<Rightarrow> path \<Rightarrow> state \<Rightarrow> (error + unit) \<times> state" where
  "convert_webp env webp png s =
     (let (code, out) = dwebp_cmd env (now s) webp png (fs s);
          s1 = emit (RunDwebp webp png)
                 (case out of None \<Rightarrow> s | Some b \<Rightarrow> s\<lparr>fs := (fs s)(png \<mapsto> File b)\<rparr>)
      in if code \<noteq> 0 then (Inl CalledProcessError, s1) else (Inr (), s1))"

text \<open>
  \<open>MyStaticFileHandler.get(path, ext)\<close>: \<open>path\<close> and \<open>ext\<close> are the two groups of the
  route pattern, \<open>ext\<close> being \<open>None\<close> when the URL has no extension.
\<close>

definition MyStaticFileHandler_get ::
  "env \<Rightarrow> get_request \<Rightarrow> path \<Rightarrow> string option \<Rightarrow> bool \<Rightarrow> state
     \<Rightarrow> (error + get_response) \<times> state" where
  "MyStaticFileHandler_get env req path ext include_body s =
     (case validate_absolute_path s (get_absolute_path env path) of
        Inl e \<Rightarrow> (Inl e, s)
      | Inr absolute_path \<Rightarrow>
          (case get_content_type env absolute_path s of
             (Inl e, s1) \<Rightarrow> (Inl e, s1)
           | (Inr content_type, s1) \<Rightarrow>
               if endswith absolute_path ''.png'' \<or> request_method req \<noteq> ''GET''
                  \<or> content_type \<noteq> ''image/webp''
               then StaticFileHandler_get env [] path include_body s1
               else (let vary = [(''Vary'', ''User-Agent, Accept'')]
                     in if (str_in ''image/webp'' (lower (headers_get (headers req) ''Accept'' []))
                            \<or> \<not> str_in ''Gecko'' (headers_get (headers req) ''User-Agent'' []))
                           \<and> ext \<noteq> Some ''.png''
                        then StaticFileHandler_get env vary path include_body s1
                        else (let png_path = absolute_path @ ''.png''
                              in case (if \<not> os_path_exists s1 png_path
                                       then convert_webp env absolute_path png_path s1
                                       else (Inr (), s1)) of
                                   (Inl e, s2) \<Rightarrow> (Inl e, s2)
                                 | (Inr _, s2) \<Rightarrow>
                                     StaticFileHandler_get env vary (path @ ''.png'')
                                       include_body s2))))"

text \<open>\<open>head\<close> is \<open>get\<close> without the body.\<close>

definition MyStaticFileHandler_head ::
  "env \<Rightarrow> get_request \<Rightarrow> path \<Rightarrow> string option \<Rightarrow> state
     \<Rightarrow> (error + get_response) \<times> state" where
  "MyStaticFileHandler_head env req path ext s =
     MyStaticFileHandler_get env req path ext False s"

section \<open>An example environment\<close>

text \<open>
  A concrete environment at which the theorems below are instantiated: the digests are the
  SHA-1 values of the example bodies, \<open>file\<close> is an old one that does not know WebP, every
  write and every \<open>mkdir\<close> succeeds, and \<open>dwebp\<close> produces a PNG.
\<close>

definition example_sha1 :: "bytes \<Rightarrow> string" where
  "example_sha1 b =
     (if b = ''abc'' then ''a9993e364706816aba3e25717850c26c9cd0d89d''
      else if b = ''hello'' then ''aaf4c61ddcc5e8a2dabede0f3b482cd9aea9434d''
      else if b = ''GIF89a'' then ''25c9b37ae36a0a08318d4dca7ca57ea98d776821''
      else if b = ''RIFF....WEBPVP8 '' then ''d64f18e5944d38d3b47ac32d69d6598b25c8192a''
      else replicate 40 CHR ''0'')"

definition example_file_cmd :: "nat \<Rightarrow> string list \<Rightarrow> filesystem \<Rightarrow> cmd_result" where
  "example_file_cmd t args f =
     (let p = last args;
          b = (case f p of Some (File b) \<Rightarrow> b | _ \<Rightarrow> [])
      in if args = [''file'', ''-i'', p]
         then CmdOutput (p @ '': '' @
                (if take 4 b = ''RIFF'' then ''application/octet-stream; charset=binary''
                 else if take 3 b = ''GIF'' then ''image/gif; charset=binary''
                 else if take 3 b = ''PNG'' then ''image/png; charset=binary''
                 else ''text/plain; charset=us-ascii'') @ [CHR 0x0A])
         else CmdOutput (p @ '': '' @
                (if take 4 b = ''RIFF'' then ''RIFF (little-endian) data, Web/P image''
                 else ''data'') @ [CHR 0x0A]))"

definition example_guess_extension :: "string \<Rightarrow> string option" where
  "example_guess_extension ftype =
     (if ftype = ''image/gif'' then Some ''.gif''
      else if ftype = ''image/png'' then Some ''.png''
      else if ftype = ''image/jpeg'' then Some ''.jpe''
      else if ftype = ''text/plain'' then Some ''.txt''
      else None)"

definition example_env :: env where
  "example_env =
     \<lparr>datadir = ''/data'',
      sha1_hexdigest = example_sha1,
      mimetypes_guess_extension = example_guess_extension,
      file_cmd = example_file_cmd,
      dwebp_cmd = (\<lambda>t webp png f. (0, Some ''PNG decoded'')),
      write_outcome = (\<lambda>t p b. IoOk),
      mkdir_ok = (\<lambda>t p. True)\<rparr>"

definition empty_state :: state where
  "empty_state = \<lparr>fs = Map.empty, mime_cache = [], users = [], images = [], trace = []\<rparr>"

text \<open>A data directory holding one WebP object, its digest being that of its content.\<close>

definition webp_path :: path where
  "webp_path = ''/data/d6/4f18e5944d38d3b47ac32d69d6598b25c8192a''"

definition webp_state :: state where
  "webp_state = empty_state\<lparr>fs := [''/data/d6'' \<mapsto> Dir, webp_path \<mapsto> File ''RIFF....WEBPVP8 '']\<rparr>"

section \<open>Observing a run\<close>

text \<open>How often the conversion program ran, and how often a file was opened for writing.\<close>

fun is_dwebp :: "event \<Rightarrow> bool" where
  "is_dwebp (RunDwebp _ _) = True"
| "is_dwebp _ = False"

definition dwebp_runs :: "event list \<Rightarrow> nat" where
  "dwebp_runs tr = length (filter is_dwebp tr)"

text \<open>
  The conditions under which \<open>MyStaticFileHandler.get\<close> reaches its last four lines: a
  \<open>GET\<close> for a stored file whose path does not end in \<open>.png\<close>, whose content type is
  \<open>image/webp\<close>, and for which the test on \<open>Accept\<close>, \<open>User-Agent\<close> and the extension
  fails. Such a request is answered with the PNG.
\<close>

definition requires_png :: "env \<Rightarrow> get_request \<Rightarrow> path \<Rightarrow> string option \<Rightarrow> state \<Rightarrow> bool" where
  "requires_png env req path ext s =
     (request_method req = ''GET''
      \<and> (case fs s (get_absolute_path env path) of Some (File _) \<Rightarrow> True | _ \<Rightarrow> False)
      \<and> \<not> endswith (get_absolute_path env path) ''.png''
      \<and> fst (get_content_type env (get_absolute_path env path) s) = Inr ''image/webp''
      \<and> \<not> ((str_in ''image/webp'' (lower (headers_get (headers req) ''Accept'' []))
              \<or> \<not> str_in ''Gecko'' (headers_get (headers req) ''User-Agent'' []))
             \<and> ext \<noteq> Some ''.png''))"

text \<open>Example requests: a browser of the Gecko family, without and with WebP in \<open>Accept\<close>.\<close>

definition gecko_request :: get_request where
  "gecko_request =
     \<lparr>request_method = ''GET'',
      headers = [(''User-Agent'', ''Mozilla/5.0 Gecko/20100101 Firefox/60.0'')]\<rparr>"

definition webp_request :: get_request where
  "webp_request =
     \<lparr>request_method = ''GET'',
      headers = [(''User-Agent'', ''Mozilla/5.0 Gecko/20100101 Firefox/65.0''),
                 (''Accept'', ''image/WebP,*/*'')]\<rparr>"

definition webp_url_path :: path where
  "webp_url_path = ''d6/4f18e5944d38d3b47ac32d69d6598b25c8192a''"

text \<open>Environments in which \<open>dwebp\<close> fails, leaving nothing or a truncated file.\<close>

definition failing_dwebp_env :: env where
  "failing_dwebp_env = example_env\<lparr>dwebp_cmd := (\<lambda>t webp png f. (1, None))\<rparr>"

definition crashing_dwebp_env :: env where
  "crashing_dwebp_env = example_env\<lparr>dwebp_cmd := (\<lambda>t webp png f. (-11, Some ''PNG dec''))\<rparr>"

subsection \<open>Observing an upload\<close>

text \<open>
  The physical path of a blob (\<open>p\<close> and \<open>fpath\<close> in the loop), the extension appended for a
  sniffed type, and the public path fragment: shard prefix, slash, shard suffix, extension.
\<close>

definition shard_dir :: "env \<Rightarrow> bytes \<Rightarrow> path" where
  "shard_dir env b = os_path_join (datadir env) (take 2 (sha1_hexdigest env b))"

definition blob_path :: "env \<Rightarrow> bytes \<Rightarrow> path" where
  "blob_path env b = os_path_join (shard_dir env b) (drop 2 (sha1_hexdigest env b))"

definition resolved_extension :: "env \<Rightarrow> string \<Rightarrow> string" where
  "resolved_extension env ftype =
     (case (if ftype \<noteq> [] then guess_extension env ftype else None) of
        Some e \<Rightarrow> e
      | None \<Rightarrow> [])"

definition public_fragment :: "env \<Rightarrow> bytes \<Rightarrow> string \<Rightarrow> string" where
  "public_fragment env b ftype =
     take 2 (sha1_hexdigest env b) @ ''/'' @ drop 2 (sha1_hexdigest env b)
       @ resolved_extension env ftype"

text \<open>
  What the loop body records for one file when it runs from state \<open>s\<close>: the URL or
  \<open>FAIL\<close>, or the exception that ends the request. \<open>file_results\<close> collects this for a
  list of files, each one processed in the state its predecessors left.
\<close>

definition file_result ::
  "env \<Rightarrow> nat \<Rightarrow> string \<Rightarrow> upload \<Rightarrow> state \<Rightarrow> (error + string) \<times> state" where
  "file_result env uid url file s =
     (case upload_one env uid url file ([], 200) s of
        (Inl e, s1) \<Rightarrow> (Inl e, s1)
      | (Inr (ret, _), s1) \<Rightarrow> (Inr (snd (hd ret)), s1))"

fun file_results ::
  "env \<Rightarrow> nat \<Rightarrow> string \<Rightarrow> upload list \<Rightarrow> state
     \<Rightarrow> (error + (string \<times> string) list) \<times> state" where
  "file_results env uid url [] s = (Inr [], s)"
| "file_results env uid url (file # rest) s =
     (case file_result env uid url file s of
        (Inl e, s1) \<Rightarrow> (Inl e, s1)
      | (Inr v, s1) \<Rightarrow>
          (case file_results env uid url rest s1 of
             (Inl e, s2) \<Rightarrow> (Inl e, s2)
           | (Inr kvs, s2) \<Rightarrow> (Inr ((filename file, v) # kvs), s2)))"

text \<open>The caller's identifier as \<open>post\<close> determines it, and the state in which the loop starts.\<close>

definition caller :: "post_request \<Rightarrow> state \<Rightarrow> (error + nat) \<times> state" where
  "caller req s =
     (case get_user_by_ip s (remote_ip req) of
        None \<Rightarrow> (let (uid, s') = add_user (remote_ip req) s in (Inr uid, s'))
      | Some u \<Rightarrow> (if blocked u then (Inl (HTTPError 403), s) else (Inr (user_id u), s)))"

text \<open>Assigning a list of key-value pairs to an \<open>OrderedDict\<close>, one after the other.\<close>

definition od_sets :: "(string \<times> string) list \<Rightarrow> ordered_dict \<Rightarrow> ordered_dict" where
  "od_sets kvs r = fold (\<lambda>kv r. od_set r (fst kv) (snd kv)) kvs r"

text \<open>
  The existence test and the \<open>try\<close> block of the loop: the blob is written unless a file
  exists at its path; \<open>False\<close> when \<open>IOError\<close> was caught.
\<close>

definition store_blob :: "env \<Rightarrow> bytes \<Rightarrow> state \<Rightarrow> bool \<times> state" where
  "store_blob env b s =
     (if \<not> os_path_exists s (blob_path env b)
      then write_file env (blob_path env b) b s
      else (True, s))"

text \<open>
  Processing \<open>file\<close> from state \<open>s\<close> attempts the write and \<open>IOError\<close> is caught: the state
  in which the write is attempted is the one after \<open>add_image\<close> and the directory check.
\<close>

definition write_failed :: "env \<Rightarrow> nat \<Rightarrow> upload \<Rightarrow> state \<Rightarrow> bool" where
  "write_failed env uid file s =
     (\<not> fst (store_blob env (body file)
               (snd (make_shard_dir env (shard_dir env (body file))
                       (add_image uid (sha1_hexdigest env (body file)) s)))))"

text \<open>
  The sniffer does not raise on path \<open>p\<close> at time \<open>t\<close> with file system \<open>f\<close>: \<open>file -i\<close>
  prints three fields and, when the type is \<open>application/octet-stream\<close>, \<open>file\<close> prints a
  name and a description.
\<close>

definition sniff_ok :: "env \<Rightarrow> nat \<Rightarrow> path \<Rightarrow> filesystem \<Rightarrow> bool" where
  "sniff_ok env t p f =
     (case file_cmd env t [''file'', ''-i'', p] f of
        CmdFailed \<Rightarrow> False
      | CmdOutput out1 \<Rightarrow>
          (case unpack3 (split_ws out1) of
             None \<Rightarrow> False
           | Some (_, mime0, _) \<Rightarrow>
               if rstrip CHR '';'' mime0 = ''application/octet-stream''
               then (case file_cmd env (Suc t) [''file'', p] f of
                       CmdFailed \<Rightarrow> False
                     | CmdOutput out2 \<Rightarrow> unpack2 (split_ws1 out2) \<noteq> None)
               else True))"

text \<open>Example uploads: two files under one client filename, and three distinct ones.\<close>

definition same_name_request :: post_request where
  "same_name_request =
     \<lparr>remote_ip = ''192.0.2.7'',
      files = [(''image'', [\<lparr>filename = ''pic'', body = ''abc''\<rparr>,
                            \<lparr>filename = ''pic'', body = ''hello''\<rparr>])],
      full_url = ''http://img.example/i''\<rparr>"

definition three_files_request :: post_request where
  "three_files_request =
     \<lparr>remote_ip = ''192.0.2.7'',
      files = [(''image'', [\<lparr>filename = ''one.txt'', body = ''abc''\<rparr>,
                            \<lparr>filename = ''two.txt'', body = ''hello''\<rparr>,
                            \<lparr>filename = ''three.gif'', body = ''GIF89a''\<rparr>])],
      full_url = ''http://img.example/i''\<rparr>"

definition single_file_request :: post_request where
  "single_file_request =
     \<lparr>remote_ip = ''192.0.2.7'',
      files = [(''image'', [\<lparr>filename = ''two.txt'', body = ''hello''\<rparr>])],
      full_url = ''http://img.example/i''\<rparr>"

text \<open>An environment in which the blob with content \<open>hello\<close> cannot be written.\<close>

definition failing_write_env :: env where
  "failing_write_env =
     example_env\<lparr>write_outcome := (\<lambda>t p b. if b = ''hello'' then IoError None else IoOk)\<rparr>"

definition same_name_three_request :: post_request where
  "same_name_three_request =
     \<lparr>remote_ip = ''192.0.2.7'',
      files = [(''image'', [\<lparr>filename = ''pic'', body = ''abc''\<rparr>,
                            \<lparr>filename = ''pic'', body = ''hello''\<rparr>,
                            \<lparr>filename = ''pic'', body = ''GIF89a''\<rparr>])],
      full_url = ''http://img.example/i''\<rparr>"

section \<open>Basic facts about the state\<close>

lemma emit_simps [simp]:
  "fs (emit e s) = fs s" "mime_cache (emit e s) = mime_cache s"
  "users (emit e s) = users s" "images (emit e s) = images s"
  "trace (emit e s) = trace s @ [e]" "now (emit e s) = Suc (now s)"
  by (simp_all add: emit_def now_def)

lemma run_file_simps [simp]:
  "fst (run_file env args s) = file_cmd env (now s) args (fs s)"
  "snd (run_file env args s) = emit (RunFile args) s"
  by (simp_all add: run_file_def)

lemma unpack3_iff [simp]: "unpack3 xs = Some (a, b, c) \<longleftrightarrow> xs = [a, b, c]"
  by (auto simp: unpack3_def split: list.splits)

lemma unpack2_iff [simp]: "unpack2 xs = Some (a, b) \<longleftrightarrow> xs = [a, b]"
  by (auto simp: unpack2_def split: list.splits)

lemma unpack3_exact [simp]: "unpack3 [a, b, c] = Some (a, b, c)"
  by (simp add: unpack3_def)

lemma unpack2_exact [simp]: "unpack2 [a, b] = Some (a, b)"
  by (simp add: unpack2_def)

lemmas example_defs =
  example_env_def example_file_cmd_def example_sha1_def example_guess_extension_def
  webp_state_def webp_path_def empty_state_def

lemmas string_defs =
  split_ws_def split_ws1_def is_space_def rstrip_def after_last_def lower_def lower_char_def
  endswith_def os_path_join_def

lemmas handler_defs =
  MyStaticFileHandler_get_def StaticFileHandler_get_def validate_absolute_path_def
  get_absolute_path_def get_content_type_def guess_type_def guess_mime_using_file_def
  run_file_def convert_webp_def os_path_exists_def file_bytes_def headers_get_def
  lru_maxsize_def now_def emit_def Let_def

lemmas request_defs =
  gecko_request_def webp_request_def webp_url_path_def failing_dwebp_env_def
  crashing_dwebp_env_def

lemmas upload_defs =
  IndexHandler_post_def upload_one_def add_image_def add_user_def get_user_by_ip_def
  make_shard_dir_def write_file_def write_results_def guess_extension_def
  same_name_request_def three_files_request_def single_file_request_def
  same_name_three_request_def
  failing_write_env_def

lemmas observer_defs =
  caller_def file_result_def write_failed_def store_blob_def blob_path_def shard_dir_def
  sniff_ok_def

section \<open>Facts about the sniffer and the static file handler\<close>


lemma os_path_join_suffix:
  "c \<noteq> [] \<Longrightarrow> hd c \<noteq> CHR ''/'' \<Longrightarrow> os_path_join a (b @ c) = os_path_join a b @ c"
  by (cases b; cases c) (auto simp: os_path_join_def)

lemma guess_mime_using_file_snd:
  "snd (guess_mime_using_file env p s) = emit (RunFile [''file'', ''-i'', p]) s
   \<or> snd (guess_mime_using_file env p s)
       = emit (RunFile [''file'', p]) (emit (RunFile [''file'', ''-i'', p]) s)"
  by (simp add: guess_mime_using_file_def run_file_def Let_def
           split: cmd_result.split option.split prod.split)

lemma guess_mime_using_file_state:
  "fs (snd (guess_mime_using_file env p s)) = fs s"
  "mime_cache (snd (guess_mime_using_file env p s)) = mime_cache s"
  "users (snd (guess_mime_using_file env p s)) = users s"
  "images (snd (guess_mime_using_file env p s)) = images s"
  "dwebp_runs (trace (snd (guess_mime_using_file env p s))) = dwebp_runs (trace s)"
  using guess_mime_using_file_snd[of env p s]
  by (auto simp: dwebp_runs_def)

lemma guess_type_state:
  "fs (snd (guess_type env p s)) = fs s"
  "users (snd (guess_type env p s)) = users s"
  "images (snd (guess_type env p s)) = images s"
  "dwebp_runs (trace (snd (guess_type env p s))) = dwebp_runs (trace s)"
  using guess_mime_using_file_state[of env p s]
  by (auto simp: guess_type_def split: option.splits prod.splits sum.splits)



lemma get_content_type_state:
  "fs (snd (get_content_type env p s)) = fs s"
  "users (snd (get_content_type env p s)) = users s"
  "images (snd (get_content_type env p s)) = images s"
  "dwebp_runs (trace (snd (get_content_type env p s))) = dwebp_runs (trace s)"
  using guess_type_state[of env p s]
  by (auto simp: get_content_type_def split: prod.splits sum.splits)


lemma StaticFileHandler_get_state:
  "fs (snd (StaticFileHandler_get env hdrs q ib s)) = fs s"
  "dwebp_runs (trace (snd (StaticFileHandler_get env hdrs q ib s))) = dwebp_runs (trace s)"
  using get_content_type_state[of env "get_absolute_path env q" s]
  by (auto simp: StaticFileHandler_get_def validate_absolute_path_def
           split: option.splits node.splits prod.splits sum.splits)

lemma StaticFileHandler_get_serves:
  assumes "fst (StaticFileHandler_get env hdrs q ib s) = Inr r"
  shows "served r = get_absolute_path env q"
    and "\<exists>b. fs s (served r) = Some (File b) \<and> content r = (if ib then b else [])"
    and "status r = 200" and "set hdrs \<subseteq> set (out_headers r)"
  using assms get_content_type_state(1)[of env "get_absolute_path env q" s]
  by (auto simp: StaticFileHandler_get_def validate_absolute_path_def file_bytes_def
           split: option.splits node.splits prod.splits sum.splits)

lemma StaticFileHandler_get_ok:
  assumes "fs s (get_absolute_path env q) = Some (File b)"
    and "fst (get_content_type env (get_absolute_path env q) s) = Inr ct"
  shows "fst (StaticFileHandler_get env hdrs q ib s)
         = Inr \<lparr>status = 200, out_headers = hdrs @ [(''Content-Type'', ct)],
                served = get_absolute_path env q, content = (if ib then b else [])\<rparr>"
  using assms get_content_type_state(1)[of env "get_absolute_path env q" s]
  by (auto simp: StaticFileHandler_get_def validate_absolute_path_def file_bytes_def
           split: option.splits node.splits prod.splits sum.splits)

lemma MyStaticFileHandler_get_webp:
  assumes "request_method req = ''GET''"
    and "fs s (get_absolute_path env path) = Some (File w)"
    and "\<not> endswith (get_absolute_path env path) ''.png''"
    and "fst (get_content_type env (get_absolute_path env path) s) = Inr ''image/webp''"
  shows "MyStaticFileHandler_get env req path ext ib s =
     (let absolute_path = get_absolute_path env path;
          s1 = snd (get_content_type env absolute_path s);
          png_path = absolute_path @ ''.png''
      in if (str_in ''image/webp'' (lower (headers_get (headers req) ''Accept'' []))
             \<or> \<not> str_in ''Gecko'' (headers_get (headers req) ''User-Agent'' []))
            \<and> ext \<noteq> Some ''.png''
         then StaticFileHandler_get env [(''Vary'', ''User-Agent, Accept'')] path ib s1
         else (case (if fs s1 png_path = None
                     then convert_webp env absolute_path png_path s1
                     else (Inr (), s1)) of
                 (Inl e, s2) \<Rightarrow> (Inl e, s2)
               | (Inr _, s2) \<Rightarrow>
                   StaticFileHandler_get env [(''Vary'', ''User-Agent, Accept'')] (path @ ''.png'') ib s2))"
proof -
  obtain r s1 where g: "get_content_type env (get_absolute_path env path) s = (r, s1)"
    by (cases "get_content_type env (get_absolute_path env path) s")
  with assms(4) have r: "r = Inr ''image/webp''" by simp
  show ?thesis
    using assms(1,2,3)
    by (simp add: MyStaticFileHandler_get_def validate_absolute_path_def g r Let_def
                  os_path_exists_def)
qed


lemma get_absolute_path_png:
  "get_absolute_path env (path @ ''.png'') = get_absolute_path env path @ ''.png''"
  by (simp add: get_absolute_path_def os_path_join_suffix)

lemma convert_webp_facts:
  "fst (convert_webp env a p s)
     = (if fst (dwebp_cmd env (now s) a p (fs s)) \<noteq> 0 then Inl CalledProcessError else Inr ())"
  "fs (snd (convert_webp env a p s))
     = (case snd (dwebp_cmd env (now s) a p (fs s)) of
          None \<Rightarrow> fs s | Some b \<Rightarrow> (fs s)(p \<mapsto> File b))"
  "trace (snd (convert_webp env a p s)) = trace s @ [RunDwebp a p]"
  "dwebp_runs (trace (snd (convert_webp env a p s))) = Suc (dwebp_runs (trace s))"
  by (auto simp: convert_webp_def Let_def dwebp_runs_def split: prod.splits option.splits)

lemma requires_png_stored:
  assumes "requires_png env req path ext s"
  shows "request_method req = ''GET''"
    and "\<exists>w. fs s (get_absolute_path env path) = Some (File w)"
    and "\<not> endswith (get_absolute_path env path) ''.png''"
    and "fst (get_content_type env (get_absolute_path env path) s) = Inr ''image/webp''"
    and "\<not> ((str_in ''image/webp'' (lower (headers_get (headers req) ''Accept'' []))
             \<or> \<not> str_in ''Gecko'' (headers_get (headers req) ''User-Agent'' []))
            \<and> ext \<noteq> Some ''.png'')"
  using assms
  by (auto simp: requires_png_def split: option.splits node.splits)

lemma get_png_branch:
  assumes "requires_png env req path ext s"
  shows "MyStaticFileHandler_get env req path ext ib s =
     (case (if fs s (get_absolute_path env path @ ''.png'') = None
            then convert_webp env (get_absolute_path env path)
                   (get_absolute_path env path @ ''.png'')
                   (snd (get_content_type env (get_absolute_path env path) s))
            else (Inr (), snd (get_content_type env (get_absolute_path env path) s))) of
        (Inl e, s2) \<Rightarrow> (Inl e, s2)
      | (Inr _, s2) \<Rightarrow>
          StaticFileHandler_get env [(''Vary'', ''User-Agent, Accept'')] (path @ ''.png'') ib s2)"
proof -
  from requires_png_stored(2)[OF assms] obtain w
    where w: "fs s (get_absolute_path env path) = Some (File w)" by blast
  have no: "((str_in ''image/webp'' (lower (headers_get (headers req) ''Accept'' []))
             \<or> \<not> str_in ''Gecko'' (headers_get (headers req) ''User-Agent'' []))
            \<and> ext \<noteq> Some ''.png'') = False"
    using requires_png_stored(5)[OF assms] by simp
  show ?thesis
    unfolding MyStaticFileHandler_get_webp[OF requires_png_stored(1)[OF assms] w
            requires_png_stored(3,4)[OF assms], of ext ib] Let_def no
    by (simp add: get_content_type_state)
qed

lemma get_png_hit:
  assumes "requires_png env req path ext s"
    and "fs s (get_absolute_path env path @ ''.png'') \<noteq> None"
  shows "MyStaticFileHandler_get env req path ext ib s =
         StaticFileHandler_get env [(''Vary'', ''User-Agent, Accept'')] (path @ ''.png'') ib
           (snd (get_content_type env (get_absolute_path env path) s))"
    and "dwebp_runs (trace (snd (MyStaticFileHandler_get env req path ext ib s)))
         = dwebp_runs (trace s)"
    and "fs (snd (MyStaticFileHandler_get env req path ext ib s)) = fs s"
  using get_png_branch[OF assms(1), of ib] assms(2)
  by (simp_all add: StaticFileHandler_get_state get_content_type_state)

lemma get_png_miss:
  assumes "requires_png env req path ext s"
    and "fs s (get_absolute_path env path @ ''.png'') = None"
  shows "dwebp_runs (trace (snd (MyStaticFileHandler_get env req path ext ib s)))
         = Suc (dwebp_runs (trace s))"
    and "fs (snd (MyStaticFileHandler_get env req path ext ib s))
         = fs (snd (convert_webp env (get_absolute_path env path)
                   (get_absolute_path env path @ ''.png'')
                   (snd (get_content_type env (get_absolute_path env path) s))))"
    and "fst (convert_webp env (get_absolute_path env path)
                   (get_absolute_path env path @ ''.png'')
                   (snd (get_content_type env (get_absolute_path env path) s))) = Inr ()
         \<Longrightarrow> MyStaticFileHandler_get env req path ext ib s
             = StaticFileHandler_get env [(''Vary'', ''User-Agent, Accept'')] (path @ ''.png'') ib
                 (snd (convert_webp env (get_absolute_path env path)
                   (get_absolute_path env path @ ''.png'')
                   (snd (get_content_type env (get_absolute_path env path) s))))"
    and "fst (convert_webp env (get_absolute_path env path)
                   (get_absolute_path env path @ ''.png'')
                   (snd (get_content_type env (get_absolute_path env path) s))) = Inl e
         \<Longrightarrow> fst (MyStaticFileHandler_get env req path ext ib s) = Inl e"
proof -
  let ?a = "get_absolute_path env path"
  let ?s1 = "snd (get_content_type env ?a s)"
  let ?c = "convert_webp env ?a (?a @ ''.png'') ?s1"
  obtain x s2 where c: "?c = (x, s2)" by (cases ?c)
  have unf: "MyStaticFileHandler_get env req path ext ib s =
     (case x of Inl e \<Rightarrow> (Inl e, s2)
      | Inr _ \<Rightarrow> StaticFileHandler_get env [(''Vary'', ''User-Agent, Accept'')] (path @ ''.png'') ib s2)"
    using get_png_branch[OF assms(1), of ib] assms(2) c by (simp split: sum.splits)
  have runs: "dwebp_runs (trace s2) = Suc (dwebp_runs (trace s))"
    using convert_webp_facts(4)[of env ?a "?a @ ''.png''" ?s1] c
    by (simp add: get_content_type_state)
  show "dwebp_runs (trace (snd (MyStaticFileHandler_get env req path ext ib s)))
         = Suc (dwebp_runs (trace s))"
    using runs by (cases x) (simp_all add: unf StaticFileHandler_get_state)
  show "fs (snd (MyStaticFileHandler_get env req path ext ib s)) = fs (snd ?c)"
    using c by (cases x) (simp_all add: unf StaticFileHandler_get_state)
  show "fst ?c = Inr () \<Longrightarrow> MyStaticFileHandler_get env req path ext ib s
             = StaticFileHandler_get env [(''Vary'', ''User-Agent, Accept'')] (path @ ''.png'') ib (snd ?c)"
    using c by (simp add: unf)
  show "fst ?c = Inl e \<Longrightarrow> fst (MyStaticFileHandler_get env req path ext ib s) = Inl e"
    using c by (simp add: unf)
qed

section \<open>Facts about the upload handler\<close>

subsection \<open>The ordered dictionary\<close>

lemma od_set_keys:
  "map fst (od_set r k v) = (if k \<in> set (map fst r) then map fst r else map fst r @ [k])"
  by (induction r) (auto simp: rev_image_eqI)

lemma od_set_map_of: "map_of (od_set r k v) = (map_of r)(k \<mapsto> v)"
  by (induction r) auto

lemma od_set_length:
  "length (od_set r k v) = (if k \<in> set (map fst r) then length r else Suc (length r))"
  by (induction r) (auto simp: rev_image_eqI)

lemma od_set_new: "k \<notin> set (map fst r) \<Longrightarrow> od_set r k v = r @ [(k, v)]"
  by (induction r) auto

lemma od_sets_simps [simp]:
  "od_sets [] r = r"
  "od_sets ((k, v) # kvs) r = od_sets kvs (od_set r k v)"
  "od_sets (kvs @ [(k, v)]) r = od_set (od_sets kvs r) k v"
  by (simp_all add: od_sets_def)

lemma od_sets_keys:
  "map fst (od_sets kvs []) = rev (remdups (rev (map fst kvs)))"
proof (induction kvs rule: rev_induct)
  case Nil
  show ?case by simp
next
  case (snoc kv kvs)
  obtain k v where kv: "kv = (k, v)" by (cases kv)
  have "set (map fst (od_sets kvs [])) = set (map fst kvs)"
    by (simp add: snoc.IH)
  then show ?case
    using snoc.IH by (simp add: kv od_set_keys)
qed

lemma od_sets_map_of:
  "map_of (od_sets kvs r) = map_of r ++ map_of (rev kvs)"
proof (induction kvs arbitrary: r)
  case Nil
  show ?case by simp
next
  case (Cons kv kvs)
  obtain k v where kv: "kv = (k, v)" by (cases kv)
  show ?case
    by (simp add: kv Cons.IH od_set_map_of map_add_upd_left fun_eq_iff map_add_def
             split: option.splits)
qed

lemma od_sets_distinct:
  assumes "distinct (map fst kvs)"
  shows "od_sets kvs [] = kvs"
  using assms
proof (induction kvs rule: rev_induct)
  case Nil
  show ?case by simp
next
  case (snoc kv kvs)
  obtain k v where kv: "kv = (k, v)" by (cases kv)
  from snoc have "od_sets kvs [] = kvs" and "k \<notin> set (map fst kvs)"
    by (auto simp: kv)
  then show ?case
    by (simp add: kv od_set_new)
qed

lemma od_sets_length:
  "length (od_sets kvs []) = card (set (map fst kvs))"
proof -
  have "length (od_sets kvs []) = length (map fst (od_sets kvs []))" by simp
  also have "\<dots> = length (remdups (rev (map fst kvs)))"
    by (simp only: od_sets_keys length_rev)
  also have "\<dots> = card (set (map fst kvs))"
    by (simp add: length_remdups_card_conv)
  finally show ?thesis .
qed

lemma od_sets_shorter:
  assumes "\<not> distinct (map fst kvs)"
  shows "length (od_sets kvs []) < length kvs"
proof -
  have "card (set (map fst kvs)) \<le> length (map fst kvs)"
    by (rule card_length)
  moreover have "card (set (map fst kvs)) \<noteq> length (map fst kvs)"
    using assms card_distinct by blast
  ultimately show ?thesis
    by (simp add: od_sets_length)
qed

subsection \<open>One file\<close>

lemma add_image_simps [simp]:
  "fs (add_image uid h s) = fs s" "mime_cache (add_image uid h s) = mime_cache s"
  "users (add_image uid h s) = users s" "images (add_image uid h s) = images s @ [(uid, h)]"
  "trace (add_image uid h s) = trace s @ [AddImage uid h]"
  "now (add_image uid h s) = Suc (now s)"
  by (simp_all add: add_image_def now_def)

lemma make_shard_dir_facts:
  "images (snd (make_shard_dir env p s)) = images s"
  "users (snd (make_shard_dir env p s)) = users s"
  "mime_cache (snd (make_shard_dir env p s)) = mime_cache s"
  "fs s q \<noteq> None \<Longrightarrow> fs (snd (make_shard_dir env p s)) q = fs s q"
  "fst (make_shard_dir env p s) = Inr () \<Longrightarrow> fs (snd (make_shard_dir env p s)) p \<noteq> None"
  "fs s p \<noteq> None \<Longrightarrow> make_shard_dir env p s = (Inr (), s)"
  "trace (snd (make_shard_dir env p s)) = trace s
   \<or> trace (snd (make_shard_dir env p s)) = trace s @ [Mkdir p]"
  by (auto simp: make_shard_dir_def os_path_exists_def split: if_splits)

lemma write_file_facts:
  "images (snd (write_file env p b s)) = images s"
  "users (snd (write_file env p b s)) = users s"
  "mime_cache (snd (write_file env p b s)) = mime_cache s"
  "fs s q \<noteq> None \<Longrightarrow> q \<noteq> p \<Longrightarrow> fs (snd (write_file env p b s)) q = fs s q"
  "q \<noteq> p \<Longrightarrow> fs (snd (write_file env p b s)) q = fs s q"
  "fst (write_file env p b s) \<Longrightarrow> fs (snd (write_file env p b s)) p = Some (File b)"
  "trace (snd (write_file env p b s)) = trace s @ [OpenWrite p]"
  "fst (write_file env p b s) \<longleftrightarrow> write_outcome env (now s) p b = IoOk"
  by (auto simp: write_file_def split: io_outcome.splits option.splits)

lemma upload_one_unfold:
  "upload_one env uid url file (ret, st) s =
     (case make_shard_dir env (shard_dir env (body file))
             (add_image uid (sha1_hexdigest env (body file)) s) of
        (Inl e, s2) \<Rightarrow> (Inl e, s2)
      | (Inr _, s2) \<Rightarrow>
          (if \<not> fst (store_blob env (body file) s2)
           then (Inr (od_set ret (filename file) ''FAIL'', 500),
                 snd (store_blob env (body file) s2))
           else (case guess_type env (blob_path env (body file))
                        (snd (store_blob env (body file) s2)) of
                   (Inl e, s4) \<Rightarrow> (Inl e, s4)
                 | (Inr v, s4) \<Rightarrow>
                     (Inr (od_set ret (filename file)
                             (rstrip CHR ''/'' url @ ''/''
                                @ public_fragment env (body file) (fst v)), st),
                      s4))))"
  by (simp add: upload_one_def Let_def shard_dir_def blob_path_def public_fragment_def
                resolved_extension_def store_blob_def
           split: prod.split sum.split option.split)

lemma url_not_FAIL [simp]:
  "rstrip c url @ ''/'' @ frag \<noteq> ''FAIL''"
  "rstrip c url @ CHR ''/'' # frag \<noteq> ''FAIL''"
proof -
  have "CHR ''/'' \<in> set (rstrip c url @ ''/'' @ frag)" by simp
  moreover have "CHR ''/'' \<notin> set ''FAIL''" by simp
  ultimately show "rstrip c url @ ''/'' @ frag \<noteq> ''FAIL''" by metis
  then show "rstrip c url @ CHR ''/'' # frag \<noteq> ''FAIL''" by simp
qed

lemma file_result_unfold:
  "file_result env uid url file s =
     (case make_shard_dir env (shard_dir env (body file))
             (add_image uid (sha1_hexdigest env (body file)) s) of
        (Inl e, s2) \<Rightarrow> (Inl e, s2)
      | (Inr _, s2) \<Rightarrow>
          (if \<not> fst (store_blob env (body file) s2)
           then (Inr ''FAIL'', snd (store_blob env (body file) s2))
           else (case guess_type env (blob_path env (body file))
                        (snd (store_blob env (body file) s2)) of
                   (Inl e, s4) \<Rightarrow> (Inl e, s4)
                 | (Inr v, s4) \<Rightarrow>
                     (Inr (rstrip CHR ''/'' url @ ''/''
                             @ public_fragment env (body file) (fst v)), s4))))"
proof -
  let ?m = "make_shard_dir env (shard_dir env (body file))
             (add_image uid (sha1_hexdigest env (body file)) s)"
  obtain r2 s2 where m: "?m = (r2, s2)" by (cases ?m)
  show ?thesis
  proof (cases r2)
    case (Inl e)
    then show ?thesis
      by (simp add: file_result_def upload_one_unfold m)
  next
    case (Inr u)
    show ?thesis
    proof (cases "fst (store_blob env (body file) s2)")
      case False
      then show ?thesis
        by (simp add: file_result_def upload_one_unfold m Inr)
    next
      case True
      let ?g = "guess_type env (blob_path env (body file)) (snd (store_blob env (body file) s2))"
      obtain r4 s4 where g: "?g = (r4, s4)" by (cases ?g)
      show ?thesis
        by (cases r4) (simp_all add: file_result_def upload_one_unfold m Inr True g)
    qed
  qed
qed

lemma upload_one_file_result:
  "upload_one env uid url file (ret, st) s =
     (case file_result env uid url file s of
        (Inl e, s1) \<Rightarrow> (Inl e, s1)
      | (Inr v, s1) \<Rightarrow>
          (Inr (od_set ret (filename file) v, if v = ''FAIL'' then 500 else st), s1))"
proof -
  let ?m = "make_shard_dir env (shard_dir env (body file))
             (add_image uid (sha1_hexdigest env (body file)) s)"
  obtain r2 s2 where m: "?m = (r2, s2)" by (cases ?m)
  show ?thesis
  proof (cases r2)
    case (Inl e)
    then show ?thesis
      by (simp add: file_result_unfold upload_one_unfold m)
  next
    case (Inr u)
    show ?thesis
    proof (cases "fst (store_blob env (body file) s2)")
      case False
      then show ?thesis
        by (simp add: file_result_unfold upload_one_unfold m Inr)
    next
      case True
      let ?g = "guess_type env (blob_path env (body file)) (snd (store_blob env (body file) s2))"
      obtain r4 s4 where g: "?g = (r4, s4)" by (cases ?g)
      show ?thesis
        by (cases r4) (simp_all add: file_result_unfold upload_one_unfold m Inr True g)
    qed
  qed
qed

lemma upload_all_file_results:
  "upload_all env uid url fl (ret, st) s =
     (case file_results env uid url fl s of
        (Inl e, s1) \<Rightarrow> (Inl e, s1)
      | (Inr kvs, s1) \<Rightarrow>
          (Inr (od_sets kvs ret, if ''FAIL'' \<in> set (map snd kvs) then 500 else st), s1))"
proof (induction fl arbitrary: ret st s)
  case Nil
  show ?case by simp
next
  case (Cons x rest)
  show ?case
    by (simp add: upload_one_file_result Cons.IH split: prod.split sum.split)
qed

lemma file_results_keys:
  "file_results env uid url fl s = (Inr kvs, s') \<Longrightarrow> map fst kvs = map filename fl"
proof (induction fl arbitrary: s kvs s')
  case Nil
  then show ?case by simp
next
  case (Cons x rest)
  then show ?case
    by (auto split: prod.splits sum.splits)
qed

lemma guess_type_trace:
  "\<exists>evs. trace (snd (guess_type env p s)) = trace s @ evs"
  using guess_mime_using_file_snd[of env p s]
  by (auto simp: guess_type_def split: option.splits prod.splits sum.splits)

lemma guess_mime_using_file_ok:
  assumes "sniff_ok env (now s) p (fs s)"
  shows "\<exists>v. fst (guess_mime_using_file env p s) = Inr v"
  using assms
  by (auto simp: sniff_ok_def guess_mime_using_file_def run_file_def Let_def
           split: cmd_result.splits option.splits prod.splits if_splits)

lemma guess_type_ok:
  assumes "\<forall>t. sniff_ok env t p (fs s)"
  shows "\<exists>v. fst (guess_type env p s) = Inr v"
proof (cases "map_of (mime_cache s) p")
  case None
  from assms have "sniff_ok env (now s) p (fs s)" by simp
  from guess_mime_using_file_ok[OF this] obtain v
    where "fst (guess_mime_using_file env p s) = Inr v" by blast
  with None show ?thesis
    by (auto simp: guess_type_def split: prod.splits sum.splits)
next
  case (Some v)
  then show ?thesis by (simp add: guess_type_def)
qed

lemma store_blob_keeps:
  "fs s q \<noteq> None \<Longrightarrow> fs (snd (store_blob env b s)) q = fs s q"
  by (cases "q = blob_path env b")
     (auto simp: store_blob_def os_path_exists_def write_file_facts)

lemma store_blob_facts:
  "images (snd (store_blob env b s)) = images s"
  "users (snd (store_blob env b s)) = users s"
  "mime_cache (snd (store_blob env b s)) = mime_cache s"
  "q \<noteq> blob_path env b \<Longrightarrow> fs (snd (store_blob env b s)) q = fs s q"
  "fst (store_blob env b s) \<Longrightarrow> fs (snd (store_blob env b s)) (blob_path env b) \<noteq> None"
  "fs s (blob_path env b) \<noteq> None \<Longrightarrow> store_blob env b s = (True, s)"
  "\<not> fst (store_blob env b s) \<longleftrightarrow>
     fs s (blob_path env b) = None \<and> write_outcome env (now s) (blob_path env b) b \<noteq> IoOk"
  "trace (snd (store_blob env b s)) = trace s
   \<or> trace (snd (store_blob env b s)) = trace s @ [OpenWrite (blob_path env b)]"
  using write_file_facts[where env = env and p = "blob_path env b" and b = b and s = s]
  by (auto simp: store_blob_def os_path_exists_def)

text \<open>What processing one file does to the state, whatever its outcome.\<close>

lemma file_result_state:
  "images (snd (file_result env uid url x s))
     = images s @ [(uid, sha1_hexdigest env (body x))]"
  "users (snd (file_result env uid url x s)) = users s"
  "fs s q \<noteq> None \<Longrightarrow> fs (snd (file_result env uid url x s)) q = fs s q"
  "\<exists>evs. trace (snd (file_result env uid url x s))
           = trace s @ AddImage uid (sha1_hexdigest env (body x)) # evs"
proof -
  let ?h = "sha1_hexdigest env (body x)"
  let ?s1 = "add_image uid ?h s"
  let ?m = "make_shard_dir env (shard_dir env (body x)) ?s1"
  let ?w = "store_blob env (body x) (snd ?m)"
  let ?g = "guess_type env (blob_path env (body x)) (snd ?w)"
  have cases: "snd (file_result env uid url x s) = snd ?m
             \<or> snd (file_result env uid url x s) = snd ?w
             \<or> snd (file_result env uid url x s) = snd ?g"
    by (auto simp: file_result_unfold split: prod.splits sum.splits)
  have im: "images (snd ?m) = images s @ [(uid, ?h)]"
    by (simp add: make_shard_dir_facts)
  have iw: "images (snd ?w) = images s @ [(uid, ?h)]"
    by (simp add: store_blob_facts im)
  have ig: "images (snd ?g) = images s @ [(uid, ?h)]"
    by (simp add: guess_type_state iw)
  from cases im iw ig
  show "images (snd (file_result env uid url x s)) = images s @ [(uid, ?h)]"
    by auto
  have "users (snd ?m) = users s" "users (snd ?w) = users s" "users (snd ?g) = users s"
    by (simp_all add: make_shard_dir_facts store_blob_facts guess_type_state)
  with cases show "users (snd (file_result env uid url x s)) = users s"
    by auto
  have tm: "\<exists>evs. trace (snd ?m) = trace s @ AddImage uid ?h # evs"
    using make_shard_dir_facts(7)[of env "shard_dir env (body x)" ?s1] by auto
  have tw: "\<exists>evs. trace (snd ?w) = trace s @ AddImage uid ?h # evs"
    using store_blob_facts(8)[of env "body x" "snd ?m"] tm by auto
  have tg: "\<exists>evs. trace (snd ?g) = trace s @ AddImage uid ?h # evs"
    using guess_type_trace[of env "blob_path env (body x)" "snd ?w"] tw by auto
  from cases tm tw tg
  show "\<exists>evs. trace (snd (file_result env uid url x s)) = trace s @ AddImage uid ?h # evs"
    by auto
  assume q: "fs s q \<noteq> None"
  then have fm: "fs (snd ?m) q = fs s q"
    by (simp add: make_shard_dir_facts)
  with q have fw: "fs (snd ?w) q = fs s q"
    by (simp add: store_blob_keeps)
  then have fg: "fs (snd ?g) q = fs s q"
    by (simp add: guess_type_state)
  from cases fm fw fg show "fs (snd (file_result env uid url x s)) q = fs s q"
    by auto
qed

lemma file_result_stored:
  assumes "file_result env uid url x s = (Inr v, s')"
  shows "v = ''FAIL'' \<longleftrightarrow> write_failed env uid x s"
    and "v \<noteq> ''FAIL'' \<Longrightarrow> fs s' (blob_path env (body x)) \<noteq> None"
    and "v \<noteq> ''FAIL'' \<Longrightarrow>
           \<exists>ftype. v = rstrip CHR ''/'' url @ ''/'' @ public_fragment env (body x) ftype"
proof -
  let ?h = "sha1_hexdigest env (body x)"
  let ?m = "make_shard_dir env (shard_dir env (body x)) (add_image uid ?h s)"
  let ?w = "store_blob env (body x) (snd ?m)"
  let ?g = "guess_type env (blob_path env (body x)) (snd ?w)"
  obtain r2 s2 where m: "?m = (r2, s2)" by (cases ?m)
  obtain r4 s4 where g: "?g = (r4, s4)" by (cases ?g)
  from assms m have r2: "r2 = Inr ()"
    by (cases r2) (auto simp: file_result_unfold)
  show "v = ''FAIL'' \<longleftrightarrow> write_failed env uid x s"
    using assms m r2 g
    by (cases r4) (auto simp: file_result_unfold write_failed_def split: if_splits)
  assume nf: "v \<noteq> ''FAIL''"
  with assms m r2 have w: "fst (store_blob env (body x) s2)"
    by (auto simp: file_result_unfold split: if_splits)
  with assms m r2 g have s': "s' = s4" and r4: "\<exists>u. r4 = Inr u"
    by (cases r4; auto simp: file_result_unfold)+
  have "fs (snd ?w) (blob_path env (body x)) \<noteq> None"
    using store_blob_facts(5)[of env "body x" s2] w m by simp
  then have "fs (snd ?g) (blob_path env (body x)) \<noteq> None"
    by (simp add: guess_type_state)
  with g s' show "fs s' (blob_path env (body x)) \<noteq> None" by simp
  from assms m r2 g w r4
  show "\<exists>ftype. v = rstrip CHR ''/'' url @ ''/'' @ public_fragment env (body x) ftype"
    by (auto simp: file_result_unfold)
qed

subsection \<open>A list of files\<close>

lemma file_results_Cons:
  assumes "file_results env uid url (x # rest) s = (Inr kvs, s')"
  obtains v s1 kvs1 where "file_result env uid url x s = (Inr v, s1)"
    and "file_results env uid url rest s1 = (Inr kvs1, s')"
    and "kvs = (filename x, v) # kvs1"
  using assms by (auto split: prod.splits sum.splits)

lemma file_results_state:
  assumes "file_results env uid url fl s = (Inr kvs, s')"
  shows "images s' = images s @ map (\<lambda>x. (uid, sha1_hexdigest env (body x))) fl"
    and "users s' = users s"
    and "fs s q \<noteq> None \<Longrightarrow> fs s' q = fs s q"
    and "length kvs = length fl"
  using assms
proof (induction fl arbitrary: s kvs)
  case Nil
  {
    case 1 then show ?case by simp
  next
    case 2 then show ?case by simp
  next
    case 3 then show ?case by simp
  next
    case 4 then show ?case by simp
  }
next
  case (Cons x rest)
  {
    case 1
    from file_results_Cons[OF 1] obtain v s1 kvs1
      where a: "file_result env uid url x s = (Inr v, s1)"
        and b: "file_results env uid url rest s1 = (Inr kvs1, s')" by metis
    from file_result_state(1)[of env uid url x s] a
    have "images s1 = images s @ [(uid, sha1_hexdigest env (body x))]" by simp
    with Cons.IH(1)[OF b] show ?case by simp
  next
    case 2
    from file_results_Cons[OF 2] obtain v s1 kvs1
      where a: "file_result env uid url x s = (Inr v, s1)"
        and b: "file_results env uid url rest s1 = (Inr kvs1, s')" by metis
    from file_result_state(2)[of env uid url x s] a have "users s1 = users s" by simp
    with Cons.IH(2)[OF b] show ?case by simp
  next
    case 3
    from file_results_Cons[OF 3(2)] obtain v s1 kvs1
      where a: "file_result env uid url x s = (Inr v, s1)"
        and b: "file_results env uid url rest s1 = (Inr kvs1, s')" by metis
    from file_result_state(3)[OF 3(1), of env uid url x] a have "fs s1 q = fs s q" by simp
    with Cons.IH(3)[OF _ b] 3(1) show ?case by simp
  next
    case 4
    from file_results_Cons[OF 4] obtain v s1 kvs1
      where b: "file_results env uid url rest s1 = (Inr kvs1, s')"
        and c: "kvs = (filename x, v) # kvs1" by metis
    with Cons.IH(4)[OF b] show ?case by simp
  }
qed

lemma file_results_snd_Cons:
  "file_result env uid url x s = (Inr v, s1) \<Longrightarrow>
   snd (file_results env uid url (x # rest) s) = snd (file_results env uid url rest s1)"
  by (simp split: prod.split sum.split)

lemma file_results_nth:
  assumes "file_results env uid url fl s = (Inr kvs, s')" and "i < length fl"
  shows "\<exists>s1. file_result env uid url (fl ! i)
                 (snd (file_results env uid url (take i fl) s)) = (Inr (snd (kvs ! i)), s1)
              \<and> (\<forall>q. fs s1 q \<noteq> None \<longrightarrow> fs s' q = fs s1 q)"
    and "fst (kvs ! i) = filename (fl ! i)"
  using assms
proof (induction fl arbitrary: s kvs i)
  case Nil
  {
    case 1 then show ?case by simp
  next
    case 2 then show ?case by simp
  }
next
  case (Cons x rest)
  {
    case 1
    from file_results_Cons[OF 1(1)] obtain v s1 kvs1
      where a: "file_result env uid url x s = (Inr v, s1)"
        and b: "file_results env uid url rest s1 = (Inr kvs1, s')"
        and c: "kvs = (filename x, v) # kvs1" by metis
    show ?case
    proof (cases i)
      case 0
      with a b c file_results_state(3)[OF b] show ?thesis by auto
    next
      case (Suc j)
      with 1(2) have j: "j < length rest" by simp
      have st: "snd (file_results env uid url (take i (x # rest)) s)
                = snd (file_results env uid url (take j rest) s1)"
        using file_results_snd_Cons[OF a, of "take j rest"] Suc
        by (simp del: file_results.simps)
      from Cons.IH(1)[OF b j] Suc c show ?thesis
        unfolding st by simp
    qed
  next
    case 2
    from file_results_Cons[OF 2(1)] obtain v s1 kvs1
      where b: "file_results env uid url rest s1 = (Inr kvs1, s')"
        and c: "kvs = (filename x, v) # kvs1" by metis
    show ?case
    proof (cases i)
      case 0
      with c show ?thesis by simp
    next
      case (Suc j)
      with 2(2) have j: "j < length rest" by simp
      from Cons.IH(2)[OF b j] Suc c show ?thesis by simp
    qed
  }
qed

lemma caller_facts:
  assumes "caller req s = (Inr uid, s1)"
  shows "fs s1 = fs s" and "mime_cache s1 = mime_cache s" and "images s1 = images s"
    and "trace s1 = trace s \<or> trace s1 = trace s @ [AddUser (remote_ip req)]"
  using assms
  by (auto simp: caller_def add_user_def Let_def split: option.splits if_splits)

lemma IndexHandler_post_unfold:
  "IndexHandler_post env req s =
     (case caller req s of
        (Inl e, s1) \<Rightarrow> (Inl e, s1)
      | (Inr uid, s1) \<Rightarrow>
          if files req = [] then (Inl (HTTPError 400), s1)
          else (case file_results env uid (full_url req) (concat (map snd (files req))) s1 of
                  (Inl e, s2) \<Rightarrow> (Inl e, s2)
                | (Inr kvs, s2) \<Rightarrow>
                    (Inr \<lparr>post_status = (if ''FAIL'' \<in> set (map snd kvs) then 500 else 200),
                          post_body = write_results (od_sets kvs [])\<rparr>, s2)))"
proof -
  obtain w s1 where c: "caller req s = (w, s1)" by (cases "caller req s")
  show ?thesis
    unfolding IndexHandler_post_def[folded caller_def] c
    by (cases w) (simp_all add: upload_all_file_results split: prod.split sum.split)
qed

lemma IndexHandler_post_Inr:
  assumes "IndexHandler_post env req s = (Inr resp, s')"
  obtains uid s1 kvs where "caller req s = (Inr uid, s1)"
    and "files req \<noteq> []"
    and "file_results env uid (full_url req) (concat (map snd (files req))) s1 = (Inr kvs, s')"
    and "resp = \<lparr>post_status = (if ''FAIL'' \<in> set (map snd kvs) then 500 else 200),
                  post_body = write_results (od_sets kvs [])\<rparr>"
  using assms unfolding IndexHandler_post_unfold
  by (auto split: prod.splits sum.splits if_splits)

lemma write_results_length: "length (write_results ret) = length ret"
  by (cases ret) (auto simp: write_results_def)

lemma upload_one_snd:
  "snd (upload_one env uid url x (ret, st) s) = snd (file_result env uid url x s)"
  by (simp add: upload_one_file_result split: prod.split sum.split)

lemma upload_one_write_failed:
  assumes "fst (make_shard_dir env (shard_dir env (body x))
                  (add_image uid (sha1_hexdigest env (body x)) s)) = Inr ()"
    and "write_failed env uid x s"
  shows "fst (upload_one env uid url x (ret, st) s)
         = Inr (od_set ret (filename x) ''FAIL'', 500)"
    and "\<exists>evs. trace (snd (upload_one env uid url x (ret, st) s))
           = trace s @ AddImage uid (sha1_hexdigest env (body x)) # evs
               @ [OpenWrite (blob_path env (body x))]"
proof -
  let ?h = "sha1_hexdigest env (body x)"
  let ?m = "make_shard_dir env (shard_dir env (body x)) (add_image uid ?h s)"
  obtain r2 s2 where m: "?m = (r2, s2)" by (cases ?m)
  with assms(1) have r2: "r2 = Inr ()" by simp
  from assms(2) m have w: "\<not> fst (store_blob env (body x) s2)"
    by (simp add: write_failed_def)
  show "fst (upload_one env uid url x (ret, st) s)
         = Inr (od_set ret (filename x) ''FAIL'', 500)"
    using w by (simp add: upload_one_unfold m r2)
  have s': "snd (upload_one env uid url x (ret, st) s) = snd (store_blob env (body x) s2)"
    using w by (simp add: upload_one_unfold m r2)
  from w have ne: "fs s2 (blob_path env (body x)) = None"
    by (simp add: store_blob_facts)
  then have tw: "trace (snd (store_blob env (body x) s2))
                 = trace s2 @ [OpenWrite (blob_path env (body x))]"
    by (simp add: store_blob_def os_path_exists_def write_file_facts)
  have "trace s2 = trace s @ [AddImage uid ?h]
        \<or> trace s2 = trace s @ [AddImage uid ?h] @ [Mkdir (shard_dir env (body x))]"
    using make_shard_dir_facts(7)[of env "shard_dir env (body x)" "add_image uid ?h s"] m
    by auto
  then have "\<exists>evs. trace s2 = trace s @ AddImage uid ?h # evs" by auto
  with tw s' show "\<exists>evs. trace (snd (upload_one env uid url x (ret, st) s))
           = trace s @ AddImage uid ?h # evs @ [OpenWrite (blob_path env (body x))]"
    by auto
qed

lemma file_result_total:
  assumes "\<forall>t. mkdir_ok env t (shard_dir env (body x))"
    and "\<forall>t f. sniff_ok env t (blob_path env (body x)) f"
  shows "\<exists>v s'. file_result env uid url x s = (Inr v, s')"
proof -
  let ?h = "sha1_hexdigest env (body x)"
  let ?m = "make_shard_dir env (shard_dir env (body x)) (add_image uid ?h s)"
  obtain r2 s2 where m: "?m = (r2, s2)" by (cases ?m)
  from assms(1) m have r2: "r2 = Inr ()"
    by (auto simp: make_shard_dir_def split: if_splits)
  show ?thesis
  proof (cases "fst (store_blob env (body x) s2)")
    case False
    then show ?thesis by (simp add: file_result_unfold m r2)
  next
    case True
    let ?g = "guess_type env (blob_path env (body x)) (snd (store_blob env (body x) s2))"
    from assms(2) have "\<forall>t. sniff_ok env t (blob_path env (body x))
                               (fs (snd (store_blob env (body x) s2)))" by simp
    from guess_type_ok[OF this] obtain v where v: "fst ?g = Inr v" by blast
    obtain r4 s4 where g: "?g = (r4, s4)" by (cases ?g)
    with v have "r4 = Inr v" by simp
    with g True show ?thesis by (simp add: file_result_unfold m r2)
  qed
qed

lemma file_results_total:
  assumes "\<forall>x\<in>set fl. \<forall>t. mkdir_ok env t (shard_dir env (body x))"
    and "\<forall>x\<in>set fl. \<forall>t f. sniff_ok env t (blob_path env (body x)) f"
  shows "\<exists>kvs s'. file_results env uid url fl s = (Inr kvs, s')"
  using assms
proof (induction fl arbitrary: s)
  case Nil
  show ?case by simp
next
  case (Cons x rest)
  from Cons.prems have "\<forall>t. mkdir_ok env t (shard_dir env (body x))"
    and "\<forall>t f. sniff_ok env t (blob_path env (body x)) f" by simp_all
  from file_result_total[OF this] obtain v s1
    where a: "file_result env uid url x s = (Inr v, s1)" by blast
  from Cons.prems have "\<forall>x\<in>set rest. \<forall>t. mkdir_ok env t (shard_dir env (body x))"
    and "\<forall>x\<in>set rest. \<forall>t f. sniff_ok env t (blob_path env (body x)) f" by simp_all
  from Cons.IH[OF this] obtain kvs s' where "file_results env uid url rest s1 = (Inr kvs, s')"
    by blast
  with a show ?case by simp
qed

lemma map_of_rev_last:
  "map_of (rev kvs) k = Some v \<Longrightarrow>
   \<exists>j<length kvs. kvs ! j = (k, v)
      \<and> (\<forall>j'. j < j' \<and> j' < length kvs \<longrightarrow> fst (kvs ! j') \<noteq> k)"
proof (induction kvs rule: rev_induct)
  case Nil
  then show ?case by simp
next
  case (snoc kv kvs)
  show ?case
  proof (cases "fst kv = k")
    case True
    with snoc.prems have "kv = (k, v)" by (cases kv) simp
    then have "(kvs @ [kv]) ! length kvs = (k, v)" by simp
    moreover have "\<forall>j'. length kvs < j' \<and> j' < length (kvs @ [kv])
                     \<longrightarrow> fst ((kvs @ [kv]) ! j') \<noteq> k"
      by auto
    ultimately show ?thesis
      by (intro exI[of _ "length kvs"]) simp
  next
    case False
    with snoc.prems have "map_of (rev kvs) k = Some v" by (cases kv) simp
    from snoc.IH[OF this] obtain j where j: "j < length kvs" and kv: "kvs ! j = (k, v)"
      and later: "\<forall>j'. j < j' \<and> j' < length kvs \<longrightarrow> fst (kvs ! j') \<noteq> k" by blast
    have "\<forall>j'. j < j' \<and> j' < length (kvs @ [kv]) \<longrightarrow> fst ((kvs @ [kv]) ! j') \<noteq> k"
      using later False by (auto simp: nth_append)
    with j kv show ?thesis
      by (intro exI[of _ j]) (simp add: nth_append)
  qed
qed

lemma od_sets_member:
  assumes "(k, v) \<in> set (od_sets kvs [])"
  shows "map_of (rev kvs) k = Some v"
proof -
  have "distinct (map fst (od_sets kvs []))"
    by (simp add: od_sets_keys)
  with assms have "map_of (od_sets kvs []) k = Some v" by simp
  then show ?thesis by (simp add: od_sets_map_of)
qed

section \<open>The canonical redirector\<close>





section \<open>The type sniffer\<close>

text \<open>
  Claim C8. When the output of \<open>file -i\<close> splits into three fields and the MIME type field is
  \<open>application/octet-stream\<close>, the sniffer runs \<open>file\<close> a second time without \<open>-i\<close>, and
  when the description in that output contains \<open>Web/P image\<close> it returns
  \<open>image/webp\<close> with no encoding. Every result of the sniffer has either no encoding or
  \<open>gzip\<close>, and a reported encoding other than \<open>gzip\<close> gives no encoding. The memoised
  function returns what this body returns whenever the path is not in the cache.
\<close>

theorem guess_mime_using_file_policy:
  "(\<forall>r1 a m e.
      file_cmd env (now s) [''file'', ''-i'', path] (fs s) = CmdOutput r1
      \<and> split_ws r1 = [a, m, e] \<and> rstrip CHR '';'' m = ''application/octet-stream''
      \<longrightarrow> trace (snd (guess_mime_using_file env path s))
            = trace s @ [RunFile [''file'', ''-i'', path], RunFile [''file'', path]]
          \<and> (\<forall>r2 a' desc.
                file_cmd env (Suc (now s)) [''file'', path] (fs s) = CmdOutput r2
                \<and> split_ws1 r2 = [a', desc] \<and> str_in ''Web/P image'' desc
                \<longrightarrow> fst (guess_mime_using_file env path s) = Inr (''image/webp'', None)))
   \<and> (\<forall>mime enc. fst (guess_mime_using_file env path s) = Inr (mime, enc)
         \<longrightarrow> enc = None \<or> enc = Some ''gzip'')
   \<and> (\<forall>r1 a m e mime enc.
         file_cmd env (now s) [''file'', ''-i'', path] (fs s) = CmdOutput r1
         \<and> split_ws r1 = [a, m, e] \<and> after_last CHR ''='' e \<noteq> ''gzip''
         \<and> fst (guess_mime_using_file env path s) = Inr (mime, enc)
         \<longrightarrow> enc = None)
   \<and> (map_of (mime_cache s) path = None
         \<longrightarrow> fst (guess_type env path s) = fst (guess_mime_using_file env path s))"
proof (intro conjI allI impI)
  fix r1 a m e
  assume "file_cmd env (now s) [''file'', ''-i'', path] (fs s) = CmdOutput r1
      \<and> split_ws r1 = [a, m, e] \<and> rstrip CHR '';'' m = ''application/octet-stream''"
  then show "trace (snd (guess_mime_using_file env path s))
            = trace s @ [RunFile [''file'', ''-i'', path], RunFile [''file'', path]]"
    by (simp add: guess_mime_using_file_def run_file_def Let_def
             split: cmd_result.split option.split prod.split)
next
  fix r1 a m e r2 a' desc
  assume "file_cmd env (now s) [''file'', ''-i'', path] (fs s) = CmdOutput r1
      \<and> split_ws r1 = [a, m, e] \<and> rstrip CHR '';'' m = ''application/octet-stream''"
    and "file_cmd env (Suc (now s)) [''file'', path] (fs s) = CmdOutput r2
      \<and> split_ws1 r2 = [a', desc] \<and> str_in ''Web/P image'' desc"
  then show "fst (guess_mime_using_file env path s) = Inr (''image/webp'', None)"
    by (simp add: guess_mime_using_file_def run_file_def Let_def)
next
  fix mime enc
  assume "fst (guess_mime_using_file env path s) = Inr (mime, enc)"
  then show "enc = None \<or> enc = Some ''gzip''"
    by (auto simp: guess_mime_using_file_def run_file_def Let_def
             split: cmd_result.splits option.splits prod.splits if_splits)
next
  fix r1 a m e mime enc
  assume "file_cmd env (now s) [''file'', ''-i'', path] (fs s) = CmdOutput r1
         \<and> split_ws r1 = [a, m, e] \<and> after_last CHR ''='' e \<noteq> ''gzip''
         \<and> fst (guess_mime_using_file env path s) = Inr (mime, enc)"
  then show "enc = None"
    by (auto simp: guess_mime_using_file_def run_file_def Let_def
             split: cmd_result.splits option.splits prod.splits if_splits)
next
  assume "map_of (mime_cache s) path = None"
  then show "fst (guess_type env path s) = fst (guess_mime_using_file env path s)"
    by (auto simp: guess_type_def split: prod.splits sum.splits)
qed

theorem guess_mime_using_file_policy_witness:
  "fst (guess_mime_using_file example_env webp_path webp_state) = Inr (''image/webp'', None)
   \<and> trace (snd (guess_mime_using_file example_env webp_path webp_state))
       = [RunFile [''file'', ''-i'', webp_path], RunFile [''file'', webp_path]]"
  using guess_mime_using_file_policy[of example_env webp_state webp_path]
  by (simp add: example_defs now_def string_defs)

section \<open>Negotiation between the original WebP and the PNG\<close>




section \<open>The transcode cache\<close>

text \<open>
  Claim C3, as amended. Take a request that requires the PNG of a stored WebP file. If a
  file exists at the path of the WebP file with \<open>.png\<close> appended, that path is handed to
  the static file handler and \<open>dwebp\<close> is not run. If none exists, \<open>dwebp\<close> is run exactly
  once; when it exits with status 0 the \<open>.png\<close> path is handed to the static file handler,
  and when it exits with another status the request fails. Whatever is served is the
  \<open>.png\<close> path. For a second such request following the first: if a file exists at the
  \<open>.png\<close> path after the first, \<open>dwebp\<close> has run at most once over both; if none
  exists (the first run left nothing), \<open>dwebp\<close> runs again, twice over both.
\<close>

theorem png_cache_hit_or_convert:
  fixes env req path ext ib s
  defines "absolute_path \<equiv> get_absolute_path env path"
  defines "png_path \<equiv> absolute_path @ ''.png''"
  defines "s1 \<equiv> snd (get_content_type env absolute_path s)"
  defines "out \<equiv> MyStaticFileHandler_get env req path ext ib s"
  assumes png: "requires_png env req path ext s"
  shows "(fs s png_path \<noteq> None \<longrightarrow>
            out = StaticFileHandler_get env [(''Vary'', ''User-Agent, Accept'')]
                    (path @ ''.png'') ib s1
            \<and> dwebp_runs (trace (snd out)) = dwebp_runs (trace s))
       \<and> (fs s png_path = None \<longrightarrow>
            dwebp_runs (trace (snd out)) = dwebp_runs (trace s) + 1
            \<and> (fst (dwebp_cmd env (now s1) absolute_path png_path (fs s)) = 0 \<longrightarrow>
                   out = StaticFileHandler_get env [(''Vary'', ''User-Agent, Accept'')]
                           (path @ ''.png'') ib
                           (snd (convert_webp env absolute_path png_path s1)))
            \<and> (fst (dwebp_cmd env (now s1) absolute_path png_path (fs s)) \<noteq> 0 \<longrightarrow>
                   fst out = Inl CalledProcessError))
       \<and> (\<forall>r. fst out = Inr r \<longrightarrow> served r = png_path)
       \<and> (\<forall>req' ext' ib'.
             requires_png env req' path ext' (snd out) \<and> fs (snd out) png_path \<noteq> None \<longrightarrow>
             dwebp_runs (trace (snd (MyStaticFileHandler_get env req' path ext' ib' (snd out))))
               \<le> dwebp_runs (trace s) + 1)
       \<and> (\<forall>req' ext' ib'.
             requires_png env req' path ext' (snd out) \<and> fs (snd out) png_path = None \<longrightarrow>
             dwebp_runs (trace (snd (MyStaticFileHandler_get env req' path ext' ib' (snd out))))
               = dwebp_runs (trace s) + 2)"
proof -
  have fs1: "fs s1 = fs s"
    by (simp add: s1_def get_content_type_state)
  have conv: "fst (convert_webp env absolute_path png_path s1)
              = (if fst (dwebp_cmd env (now s1) absolute_path png_path (fs s)) \<noteq> 0
                 then Inl CalledProcessError else Inr ())"
    by (simp add: convert_webp_facts fs1)
  have hit: "out = StaticFileHandler_get env [(''Vary'', ''User-Agent, Accept'')]
                    (path @ ''.png'') ib s1
            \<and> dwebp_runs (trace (snd out)) = dwebp_runs (trace s)"
    if "fs s png_path \<noteq> None"
    using get_png_hit(1,2)[OF png, where ib = ib] that
    by (simp add: out_def s1_def png_path_def absolute_path_def)
  have miss: "dwebp_runs (trace (snd out)) = dwebp_runs (trace s) + 1
            \<and> (fst (dwebp_cmd env (now s1) absolute_path png_path (fs s)) = 0 \<longrightarrow>
                   out = StaticFileHandler_get env [(''Vary'', ''User-Agent, Accept'')]
                           (path @ ''.png'') ib
                           (snd (convert_webp env absolute_path png_path s1)))
            \<and> (fst (dwebp_cmd env (now s1) absolute_path png_path (fs s)) \<noteq> 0 \<longrightarrow>
                   fst out = Inl CalledProcessError)"
    if "fs s png_path = None"
    using get_png_miss(1,3,4)[OF png, where ib = ib] that conv
    by (simp add: out_def s1_def png_path_def absolute_path_def)
  have srv: "served r = png_path" if r: "fst out = Inr r" for r
  proof (cases "fs s png_path = None")
    case True
    with miss r have c0: "fst (dwebp_cmd env (now s1) absolute_path png_path (fs s)) = 0"
      by (cases "fst (dwebp_cmd env (now s1) absolute_path png_path (fs s)) = 0") auto
    with miss True r StaticFileHandler_get_serves(1)[of env "[(''Vary'', ''User-Agent, Accept'')]"
         "path @ ''.png''" ib "snd (convert_webp env absolute_path png_path s1)" r]
    show ?thesis
      by (simp add: get_absolute_path_png png_path_def absolute_path_def)
  next
    case False
    with hit r StaticFileHandler_get_serves(1)[of env "[(''Vary'', ''User-Agent, Accept'')]"
         "path @ ''.png''" ib s1 r]
    show ?thesis
      by (simp add: get_absolute_path_png png_path_def absolute_path_def)
  qed
  have runs: "dwebp_runs (trace (snd out)) \<le> dwebp_runs (trace s) + 1"
    using hit miss by (cases "fs s png_path = None") auto
  have second_hit:
    "dwebp_runs (trace (snd (MyStaticFileHandler_get env req' path ext' ib' (snd out))))
       \<le> dwebp_runs (trace s) + 1"
    if "requires_png env req' path ext' (snd out) \<and> fs (snd out) png_path \<noteq> None"
    for req' ext' ib'
    using get_png_hit(2)[where env = env and req = req' and path = path and ext = ext' and s = "snd out" and ib = ib'] that runs
    by (simp add: png_path_def absolute_path_def)
  have second_miss:
    "dwebp_runs (trace (snd (MyStaticFileHandler_get env req' path ext' ib' (snd out))))
       = dwebp_runs (trace s) + 2"
    if h: "requires_png env req' path ext' (snd out) \<and> fs (snd out) png_path = None"
    for req' ext' ib'
  proof -
    have absent: "fs s png_path = None"
    proof (rule ccontr)
      assume "fs s png_path \<noteq> None"
      with get_png_hit(3)[OF png, where ib = ib] h show False
        by (simp add: out_def png_path_def absolute_path_def)
    qed
    with miss have "dwebp_runs (trace (snd out)) = dwebp_runs (trace s) + 1" by simp
    with get_png_miss(1)[where env = env and req = req' and path = path and ext = ext' and s = "snd out" and ib = ib'] h
    show ?thesis
      by (simp add: png_path_def absolute_path_def)
  qed
  from hit miss srv second_hit second_miss show ?thesis by blast
qed


theorem png_cache_hit_or_convert_witness:
  "requires_png example_env gecko_request webp_url_path None webp_state
   \<and> dwebp_runs (trace (snd (MyStaticFileHandler_get example_env gecko_request webp_url_path
                                None True webp_state))) = 1"
proof -
  have h: "requires_png example_env gecko_request webp_url_path None webp_state"
    by (simp add: requires_png_def handler_defs request_defs example_defs string_defs)
  have absent: "fs webp_state (get_absolute_path example_env webp_url_path @ ''.png'') = None"
    by (simp add: handler_defs request_defs example_defs string_defs)
  have zero: "dwebp_runs (trace webp_state) = 0"
    by (simp add: dwebp_runs_def example_defs)
  from png_cache_hit_or_convert[OF h, where ib = True] absent zero h
  show ?thesis by simp
qed

text \<open>
  The claim as stated fails: when \<open>dwebp\<close> fails without leaving a file, two successive
  requests that require the PNG run it twice.
\<close>

theorem oracle_invoked_twice_counterexample:
  "requires_png failing_dwebp_env gecko_request webp_url_path None webp_state
   \<and> requires_png failing_dwebp_env gecko_request webp_url_path None
         (snd (MyStaticFileHandler_get failing_dwebp_env gecko_request webp_url_path None True
                 webp_state))
   \<and> dwebp_runs (trace (snd (MyStaticFileHandler_get failing_dwebp_env gecko_request
                                webp_url_path None True
                                (snd (MyStaticFileHandler_get failing_dwebp_env gecko_request
                                        webp_url_path None True webp_state))))) = 2"
  by (simp add: requires_png_def handler_defs request_defs example_defs string_defs
                dwebp_runs_def)

text \<open>
  Claim C4, as amended. When a request requires the PNG, no file exists at the \<open>.png\<close>
  path and \<open>dwebp\<close> exits with a non-zero status, the request fails with
  \<open>CalledProcessError\<close>, which the framework answers with status 500. The handler removes
  nothing: the file system afterwards is the one before, with whatever \<open>dwebp\<close> left at
  the \<open>.png\<close> path. If it left a file, complete or not, a later request that requires the
  PNG is served that file with status 200 and \<open>dwebp\<close> does not run again; if it left
  nothing, the later request runs \<open>dwebp\<close> again.
\<close>

theorem failed_conversion_keeps_output:
  fixes env req path ext ib s
  defines "absolute_path \<equiv> get_absolute_path env path"
  defines "png_path \<equiv> absolute_path @ ''.png''"
  defines "s1 \<equiv> snd (get_content_type env absolute_path s)"
  defines "out \<equiv> MyStaticFileHandler_get env req path ext ib s"
  defines "result \<equiv> dwebp_cmd env (now s1) absolute_path png_path (fs s)"
  assumes png: "requires_png env req path ext s"
    and absent: "fs s png_path = None"
    and failed: "fst result \<noteq> 0"
  shows "fst out = Inl CalledProcessError \<and> status_of_error CalledProcessError = 500
       \<and> fs (snd out) = (case snd result of
                            None \<Rightarrow> fs s
                          | Some b \<Rightarrow> (fs s)(png_path \<mapsto> File b))
       \<and> (\<forall>b req' ext' ib' ct.
             snd result = Some b \<and> requires_png env req' path ext' (snd out)
             \<and> fst (get_content_type env png_path
                       (snd (get_content_type env absolute_path (snd out)))) = Inr ct
             \<longrightarrow> fst (MyStaticFileHandler_get env req' path ext' ib' (snd out))
                   = Inr \<lparr>status = 200,
                           out_headers = [(''Vary'', ''User-Agent, Accept''),
                                          (''Content-Type'', ct)],
                           served = png_path,
                           content = (if ib' then b else [])\<rparr>
                 \<and> dwebp_runs (trace (snd (MyStaticFileHandler_get env req' path ext' ib'
                                               (snd out))))
                   = dwebp_runs (trace (snd out)))
       \<and> (\<forall>req' ext' ib'.
             snd result = None \<and> requires_png env req' path ext' (snd out)
             \<longrightarrow> dwebp_runs (trace (snd (MyStaticFileHandler_get env req' path ext' ib'
                                               (snd out))))
                   = dwebp_runs (trace (snd out)) + 1)"
proof -
  have fs1: "fs s1 = fs s"
    by (simp add: s1_def get_content_type_state)
  have conv: "fst (convert_webp env absolute_path png_path s1) = Inl CalledProcessError"
    using failed by (simp add: convert_webp_facts fs1 result_def)
  have fs_out: "fs (snd out) = (case snd result of
                            None \<Rightarrow> fs s
                          | Some b \<Rightarrow> (fs s)(png_path \<mapsto> File b))"
    using get_png_miss(2)[OF png, where ib = ib] absent
    by (simp add: out_def s1_def png_path_def absolute_path_def convert_webp_facts
                  result_def get_content_type_state split: option.split)
  have err: "fst out = Inl CalledProcessError"
    using get_png_miss(4)[OF png, where ib = ib and e = CalledProcessError] absent conv
    by (simp add: out_def s1_def png_path_def absolute_path_def)
  have served_later:
    "fst (MyStaticFileHandler_get env req' path ext' ib' (snd out))
                   = Inr \<lparr>status = 200,
                           out_headers = [(''Vary'', ''User-Agent, Accept''),
                                          (''Content-Type'', ct)],
                           served = png_path,
                           content = (if ib' then b else [])\<rparr>
                 \<and> dwebp_runs (trace (snd (MyStaticFileHandler_get env req' path ext' ib'
                                               (snd out))))
                   = dwebp_runs (trace (snd out))"
    if h: "snd result = Some b \<and> requires_png env req' path ext' (snd out)
             \<and> fst (get_content_type env png_path
                       (snd (get_content_type env absolute_path (snd out)))) = Inr ct"
    for b req' ext' ib' ct
  proof -
    from h fs_out have there: "fs (snd out) png_path = Some (File b)" by simp
    then have ne: "fs (snd out) (get_absolute_path env path @ ''.png'') \<noteq> None"
      by (simp add: png_path_def absolute_path_def)
    from h have rp: "requires_png env req' path ext' (snd out)" by simp
    let ?s2 = "snd (get_content_type env absolute_path (snd out))"
    have there2: "fs ?s2 (get_absolute_path env (path @ ''.png'')) = Some (File b)"
      using there
      by (simp add: get_content_type_state get_absolute_path_png png_path_def absolute_path_def)
    have ct2: "fst (get_content_type env (get_absolute_path env (path @ ''.png'')) ?s2) = Inr ct"
      using h by (simp add: get_absolute_path_png png_path_def absolute_path_def)
    from get_png_hit(1,2)[OF rp ne, where ib = ib']
         StaticFileHandler_get_ok[OF there2 ct2, of "[(''Vary'', ''User-Agent, Accept'')]" ib']
    show ?thesis
      by (simp add: get_absolute_path_png png_path_def absolute_path_def)
  qed
  have retried:
    "dwebp_runs (trace (snd (MyStaticFileHandler_get env req' path ext' ib' (snd out))))
       = dwebp_runs (trace (snd out)) + 1"
    if h: "snd result = None \<and> requires_png env req' path ext' (snd out)"
    for req' ext' ib'
  proof -
    from h fs_out absent have "fs (snd out) (get_absolute_path env path @ ''.png'') = None"
      by (simp add: png_path_def absolute_path_def)
    with get_png_miss(1)[where env = env and req = req' and path = path and ext = ext'
                           and s = "snd out" and ib = ib'] h
    show ?thesis by simp
  qed
  from err fs_out served_later retried show ?thesis
    by (intro conjI allI impI) (simp_all del: fun_upd_apply)
qed

theorem failed_conversion_keeps_output_witness:
  "fst (MyStaticFileHandler_get crashing_dwebp_env gecko_request webp_url_path None True
          webp_state) = Inl CalledProcessError
   \<and> fs (snd (MyStaticFileHandler_get crashing_dwebp_env gecko_request webp_url_path None True
                webp_state)) (webp_path @ ''.png'') = Some (File ''PNG dec'')"
proof -
  have a: "get_absolute_path crashing_dwebp_env webp_url_path = webp_path"
    by (simp add: handler_defs request_defs example_defs string_defs)
  have h: "requires_png crashing_dwebp_env gecko_request webp_url_path None webp_state"
    by (simp add: requires_png_def handler_defs request_defs example_defs string_defs)
  have absent: "fs webp_state (get_absolute_path crashing_dwebp_env webp_url_path @ ''.png'')
                = None"
    by (simp add: handler_defs request_defs example_defs string_defs)
  have failed: "fst (dwebp_cmd crashing_dwebp_env
                       (now (snd (get_content_type crashing_dwebp_env
                                    (get_absolute_path crashing_dwebp_env webp_url_path)
                                    webp_state)))
                       (get_absolute_path crashing_dwebp_env webp_url_path)
                       (get_absolute_path crashing_dwebp_env webp_url_path @ ''.png'')
                       (fs webp_state)) \<noteq> 0"
    by (simp add: request_defs example_defs)
  have wrote: "snd (dwebp_cmd crashing_dwebp_env
                       (now (snd (get_content_type crashing_dwebp_env
                                    (get_absolute_path crashing_dwebp_env webp_url_path)
                                    webp_state)))
                       (get_absolute_path crashing_dwebp_env webp_url_path)
                       (get_absolute_path crashing_dwebp_env webp_url_path @ ''.png'')
                       (fs webp_state)) = Some ''PNG dec''"
    by (simp add: request_defs example_defs)
  from failed_conversion_keeps_output[OF h absent failed, where ib = True] wrote
  show ?thesis
    unfolding a by simp
qed

text \<open>
  The claim as stated fails: \<open>dwebp\<close> crashes after writing part of the PNG, the request
  fails, and the next request is served the truncated file.
\<close>

theorem truncated_png_served_counterexample:
  "requires_png crashing_dwebp_env gecko_request webp_url_path None webp_state
   \<and> fst (MyStaticFileHandler_get crashing_dwebp_env gecko_request webp_url_path None True
            webp_state) = Inl CalledProcessError
   \<and> fst (MyStaticFileHandler_get crashing_dwebp_env gecko_request webp_url_path None True
            (snd (MyStaticFileHandler_get crashing_dwebp_env gecko_request webp_url_path None
                    True webp_state)))
     = Inr \<lparr>status = 200,
             out_headers = [(''Vary'', ''User-Agent, Accept''), (''Content-Type'', ''image/png'')],
             served = ''/data/d6/4f18e5944d38d3b47ac32d69d6598b25c8192a.png'',
             content = ''PNG dec''\<rparr>"
  by (simp add: requires_png_def handler_defs request_defs example_defs string_defs)

section \<open>The response of the upload handler\<close>

text \<open>
  Claim C7, as amended. For every upload request that is answered, each submitted file has
  one result, in the order in which the handler goes through \<open>request.files\<close>, but the
  body has one line per distinct client filename: the filenames appear in the order of their
  first occurrence, and the line of a filename carries the result of the last file submitted
  under it. With more than one distinct filename the lines are \<open>filename: result\<close>, with
  exactly one the single line is the bare result (the URL, or \<open>FAIL\<close>), and nothing is
  written exactly when no file was submitted. When the filenames are pairwise distinct
  there is one line per file.
\<close>

theorem response_lines_per_filename:
  fixes env req s
  defines "fl \<equiv> concat (map snd (files req))"
  assumes post: "IndexHandler_post env req s = (Inr resp, s')"
  shows "\<exists>uid s1 kvs.
           caller req s = (Inr uid, s1)
         \<and> file_results env uid (full_url req) fl s1 = (Inr kvs, s')
         \<and> map fst kvs = map filename fl
         \<and> map fst (od_sets kvs []) = rev (remdups (rev (map filename fl)))
         \<and> map_of (od_sets kvs []) = map_of (rev kvs)
         \<and> post_body resp =
             (if length (od_sets kvs []) > 1
              then map (\<lambda>(k, v). k @ '': '' @ v @ [CHR 0x0A]) (od_sets kvs [])
              else if length (od_sets kvs []) = 1
              then [snd (hd (od_sets kvs [])) @ [CHR 0x0A]]
              else [])
         \<and> (distinct (map filename fl) \<longrightarrow> od_sets kvs [] = kvs)
         \<and> (post_body resp = [] \<longleftrightarrow> fl = [])"
proof -
  from IndexHandler_post_Inr[OF post] obtain uid s1 kvs
    where c: "caller req s = (Inr uid, s1)"
      and r: "file_results env uid (full_url req) fl s1 = (Inr kvs, s')"
      and resp: "resp = \<lparr>post_status = (if ''FAIL'' \<in> set (map snd kvs) then 500 else 200),
                  post_body = write_results (od_sets kvs [])\<rparr>"
    unfolding fl_def by metis
  have keys: "map fst kvs = map filename fl"
    by (rule file_results_keys[OF r])
  have order: "map fst (od_sets kvs []) = rev (remdups (rev (map filename fl)))"
    by (simp add: od_sets_keys keys)
  have last: "map_of (od_sets kvs []) = map_of (rev kvs)"
    by (simp add: od_sets_map_of)
  have body: "post_body resp =
             (if length (od_sets kvs []) > 1
              then map (\<lambda>(k, v). k @ '': '' @ v @ [CHR 0x0A]) (od_sets kvs [])
              else if length (od_sets kvs []) = 1
              then [snd (hd (od_sets kvs [])) @ [CHR 0x0A]]
              else [])"
    by (cases "od_sets kvs []") (simp_all add: resp write_results_def)
  have dist: "distinct (map filename fl) \<longrightarrow> od_sets kvs [] = kvs"
    using od_sets_distinct[of kvs] keys by simp
  have "length (post_body resp) = card (set (map filename fl))"
    by (simp add: resp write_results_length od_sets_length keys)
  then have none: "post_body resp = [] \<longleftrightarrow> fl = []"
    by (cases fl) (auto simp: card_eq_0_iff)
  from c r keys order last body dist none show ?thesis by blast
qed

theorem response_lines_per_filename_witness:
  "\<exists>kvs. map fst kvs = [''one.txt'', ''two.txt'', ''three.gif'']
        \<and> [''one.txt: http://img.example/i/a9/993e364706816aba3e25717850c26c9cd0d89d.txt''
               @ [CHR 0x0A],
            ''two.txt: http://img.example/i/aa/f4c61ddcc5e8a2dabede0f3b482cd9aea9434d.txt''
               @ [CHR 0x0A],
            ''three.gif: http://img.example/i/25/c9b37ae36a0a08318d4dca7ca57ea98d776821.gif''
               @ [CHR 0x0A]]
          = map (\<lambda>(k, v). k @ '': '' @ v @ [CHR 0x0A]) kvs"
proof -
  let ?resp = "\<lparr>post_status = 200,
      post_body =
        [''one.txt: http://img.example/i/a9/993e364706816aba3e25717850c26c9cd0d89d.txt''
           @ [CHR 0x0A],
         ''two.txt: http://img.example/i/aa/f4c61ddcc5e8a2dabede0f3b482cd9aea9434d.txt''
           @ [CHR 0x0A],
         ''three.gif: http://img.example/i/25/c9b37ae36a0a08318d4dca7ca57ea98d776821.gif''
           @ [CHR 0x0A]]\<rparr>"
  have "fst (IndexHandler_post example_env three_files_request empty_state) = Inr ?resp"
    by (simp add: upload_defs handler_defs example_defs string_defs)
  then have h: "IndexHandler_post example_env three_files_request empty_state
                = (Inr ?resp, snd (IndexHandler_post example_env three_files_request empty_state))"
    by (simp add: prod_eq_iff)
  have fl: "map filename (concat (map snd (files three_files_request)))
            = [''one.txt'', ''two.txt'', ''three.gif'']"
    by (simp add: three_files_request_def)
  from response_lines_per_filename[OF h] obtain kvs
    where k: "map fst kvs = map filename (concat (map snd (files three_files_request)))"
      and b: "post_body ?resp =
             (if length (od_sets kvs []) > 1
              then map (\<lambda>(k, v). k @ '': '' @ v @ [CHR 0x0A]) (od_sets kvs [])
              else if length (od_sets kvs []) = 1
              then [snd (hd (od_sets kvs [])) @ [CHR 0x0A]]
              else [])"
      and d: "distinct (map filename (concat (map snd (files three_files_request))))
              \<longrightarrow> od_sets kvs [] = kvs"
    by blast
  from d fl have o: "od_sets kvs [] = kvs" by simp
  from k fl have "length (map fst kvs) = 3" by simp
  then have l: "length kvs = 3" by simp
  from b o l have "post_body ?resp = map (\<lambda>(k, v). k @ '': '' @ v @ [CHR 0x0A]) kvs"
    by simp
  with k fl show ?thesis
    by (intro exI[of _ kvs]) simp
qed

text \<open>
  The claim as stated fails: two files submitted under one filename give a single line,
  the bare URL of the second file.
\<close>

theorem one_line_for_two_files_counterexample:
  "length (concat (map snd (files same_name_request))) = 2
   \<and> fst (IndexHandler_post example_env same_name_request empty_state)
     = Inr \<lparr>post_status = 200,
             post_body = [''http://img.example/i/aa/f4c61ddcc5e8a2dabede0f3b482cd9aea9434d.txt''
                            @ [CHR 0x0A]]\<rparr>"
  by (simp add: upload_defs handler_defs example_defs string_defs)

text \<open>
  Claim C10. The results are kept in a dictionary keyed by the client filename. Whenever two
  files of an answered request share a filename, the body has fewer lines than files were
  submitted: it has one line per distinct filename, in the order of first occurrence,
  written as \<open>filename: result\<close> when there are several filenames and as the bare result
  when there is one, and the result on the line of a filename is that of the last file
  submitted under it, which replaces the results of the earlier ones. The result of a file
  is \<open>FAIL\<close> when its write failed and otherwise the URL made of its own digest. Yet the
  digest of every file is recorded for the caller, in order, and every file whose result is
  not \<open>FAIL\<close> exists in the store afterwards.
\<close>

theorem duplicate_filenames_collapse:
  fixes env req s
  defines "fl \<equiv> concat (map snd (files req))"
  assumes post: "IndexHandler_post env req s = (Inr resp, s')"
    and dup: "\<not> distinct (map filename fl)"
  shows "length (post_body resp) < length fl
       \<and> (\<exists>uid s1 kvs.
             caller req s = (Inr uid, s1)
           \<and> file_results env uid (full_url req) fl s1 = (Inr kvs, s')
           \<and> length kvs = length fl
           \<and> od_sets kvs [] \<noteq> []
           \<and> post_body resp =
               (if length (od_sets kvs []) > 1
                then map (\<lambda>(k, v). k @ '': '' @ v @ [CHR 0x0A]) (od_sets kvs [])
                else [snd (hd (od_sets kvs [])) @ [CHR 0x0A]])
           \<and> map fst (od_sets kvs []) = rev (remdups (rev (map filename fl)))
           \<and> (\<forall>k v. (k, v) \<in> set (od_sets kvs []) \<longrightarrow>
                 (\<exists>j<length fl. filename (fl ! j) = k \<and> snd (kvs ! j) = v
                     \<and> (\<forall>j'. j < j' \<and> j' < length fl \<longrightarrow> filename (fl ! j') \<noteq> k)))
           \<and> (\<forall>i<length fl.
                 (snd (kvs ! i) = ''FAIL'' \<longleftrightarrow>
                    write_failed env uid (fl ! i)
                      (snd (file_results env uid (full_url req) (take i fl) s1)))
               \<and> (snd (kvs ! i) \<noteq> ''FAIL'' \<longrightarrow>
                    (\<exists>ftype. snd (kvs ! i)
                       = rstrip CHR ''/'' (full_url req) @ ''/''
                           @ public_fragment env (body (fl ! i)) ftype)
                  \<and> fs s' (blob_path env (body (fl ! i))) \<noteq> None))
           \<and> images s' = images s @ map (\<lambda>x. (uid, sha1_hexdigest env (body x))) fl)"
proof -
  from IndexHandler_post_Inr[OF post] obtain uid s1 kvs
    where c: "caller req s = (Inr uid, s1)"
      and r: "file_results env uid (full_url req) fl s1 = (Inr kvs, s')"
      and resp: "resp = \<lparr>post_status = (if ''FAIL'' \<in> set (map snd kvs) then 500 else 200),
                  post_body = write_results (od_sets kvs [])\<rparr>"
    unfolding fl_def by metis
  have keys: "map fst kvs = map filename fl"
    by (rule file_results_keys[OF r])
  have len: "length kvs = length fl"
    by (rule file_results_state(4)[OF r])
  have fewer: "length (post_body resp) < length fl"
    using od_sets_shorter[of kvs] dup keys len
    by (simp add: resp write_results_length)
  from dup have "fl \<noteq> []" by auto
  with keys have "kvs \<noteq> []" by auto
  then have "card (set (map fst kvs)) \<noteq> 0" by (simp add: card_eq_0_iff)
  then have ne: "od_sets kvs [] \<noteq> []"
    using od_sets_length[of kvs] by auto
  have body: "post_body resp =
               (if length (od_sets kvs []) > 1
                then map (\<lambda>(k, v). k @ '': '' @ v @ [CHR 0x0A]) (od_sets kvs [])
                else [snd (hd (od_sets kvs [])) @ [CHR 0x0A]])"
    using ne by (simp add: resp write_results_def)
  have order: "map fst (od_sets kvs []) = rev (remdups (rev (map filename fl)))"
    by (simp add: od_sets_keys keys)
  have last: "\<exists>j<length fl. filename (fl ! j) = k \<and> snd (kvs ! j) = v
                     \<and> (\<forall>j'. j < j' \<and> j' < length fl \<longrightarrow> filename (fl ! j') \<noteq> k)"
    if "(k, v) \<in> set (od_sets kvs [])" for k v
  proof -
    from od_sets_member[OF that] obtain j
      where j: "j < length kvs" and kv: "kvs ! j = (k, v)"
        and later: "\<forall>j'. j < j' \<and> j' < length kvs \<longrightarrow> fst (kvs ! j') \<noteq> k"
      using map_of_rev_last[of kvs k v] by blast
    have nth: "fst (kvs ! i) = filename (fl ! i)" if "i < length fl" for i
      using file_results_nth(2)[OF r that] .
    from j len nth[of j] kv have "filename (fl ! j) = k" by simp
    moreover from kv have "snd (kvs ! j) = v" by simp
    moreover have "\<forall>j'. j < j' \<and> j' < length fl \<longrightarrow> filename (fl ! j') \<noteq> k"
      using later len nth by auto
    ultimately show ?thesis using j len by auto
  qed
  have each: "(snd (kvs ! i) = ''FAIL'' \<longleftrightarrow>
                    write_failed env uid (fl ! i)
                      (snd (file_results env uid (full_url req) (take i fl) s1)))
               \<and> (snd (kvs ! i) \<noteq> ''FAIL'' \<longrightarrow>
                    (\<exists>ftype. snd (kvs ! i)
                       = rstrip CHR ''/'' (full_url req) @ ''/''
                           @ public_fragment env (body (fl ! i)) ftype)
                  \<and> fs s' (blob_path env (body (fl ! i))) \<noteq> None)"
    if i: "i < length fl" for i
  proof -
    from file_results_nth(1)[OF r i] obtain s2
      where one: "file_result env uid (full_url req) (fl ! i)
                    (snd (file_results env uid (full_url req) (take i fl) s1))
                  = (Inr (snd (kvs ! i)), s2)"
        and keep: "\<forall>q. fs s2 q \<noteq> None \<longrightarrow> fs s' q = fs s2 q" by blast
    from file_result_stored[OF one] keep show ?thesis by auto
  qed
  have im: "images s' = images s @ map (\<lambda>x. (uid, sha1_hexdigest env (body x))) fl"
    using file_results_state(1)[OF r] caller_facts(3)[OF c] by simp
  from fewer c r len ne body order last each im show ?thesis by blast
qed

theorem duplicate_filenames_collapse_witness:
  "length (concat (map snd (files same_name_request))) = 2
   \<and> fst (IndexHandler_post example_env same_name_request empty_state)
     = Inr \<lparr>post_status = 200,
             post_body = [''http://img.example/i/aa/f4c61ddcc5e8a2dabede0f3b482cd9aea9434d.txt''
                            @ [CHR 0x0A]]\<rparr>
   \<and> (case fst (IndexHandler_post example_env same_name_request empty_state) of
         Inl e \<Rightarrow> False
       | Inr resp \<Rightarrow> length (post_body resp)
                      < length (concat (map snd (files same_name_request))))
   \<and> images (snd (IndexHandler_post example_env same_name_request empty_state))
     = [(1, ''a9993e364706816aba3e25717850c26c9cd0d89d''),
        (1, ''aaf4c61ddcc5e8a2dabede0f3b482cd9aea9434d'')]
   \<and> fs (snd (IndexHandler_post example_env same_name_request empty_state))
        ''/data/a9/993e364706816aba3e25717850c26c9cd0d89d'' = Some (File ''abc'')
   \<and> fs (snd (IndexHandler_post example_env same_name_request empty_state))
        ''/data/aa/f4c61ddcc5e8a2dabede0f3b482cd9aea9434d'' = Some (File ''hello'')"
proof -
  let ?resp = "\<lparr>post_status = 200,
             post_body = [''http://img.example/i/aa/f4c61ddcc5e8a2dabede0f3b482cd9aea9434d.txt''
                            @ [CHR 0x0A]]\<rparr>"
  let ?out = "IndexHandler_post example_env same_name_request empty_state"
  have two: "length (concat (map snd (files same_name_request))) = 2"
    by (simp add: same_name_request_def)
  have answered: "fst ?out = Inr ?resp"
    by (simp add: upload_defs handler_defs example_defs string_defs)
  then have h: "?out = (Inr ?resp, snd ?out)"
    by (simp add: prod_eq_iff)
  have dup: "\<not> distinct (map filename (concat (map snd (files same_name_request))))"
    by (simp add: same_name_request_def)
  have c: "caller same_name_request empty_state
           = (Inr 1, snd (caller same_name_request empty_state))"
    by (simp add: caller_def upload_defs example_defs Let_def prod_eq_iff)
  have im0: "images empty_state = []"
    by (simp add: example_defs)
  have digests: "map (\<lambda>x. (1::nat, sha1_hexdigest example_env (body x)))
                   (concat (map snd (files same_name_request)))
                 = [(1, ''a9993e364706816aba3e25717850c26c9cd0d89d''),
                    (1, ''aaf4c61ddcc5e8a2dabede0f3b482cd9aea9434d'')]"
    by (simp add: same_name_request_def example_defs)
  note T = duplicate_filenames_collapse[OF h dup]
  from T have fewer: "length (post_body ?resp) < length (concat (map snd (files same_name_request)))"
    by blast
  from T c im0 digests
  have im: "images (snd ?out) = [(1, ''a9993e364706816aba3e25717850c26c9cd0d89d''),
                                 (1, ''aaf4c61ddcc5e8a2dabede0f3b482cd9aea9434d'')]"
    by auto
  have short: "(case fst ?out of
                  Inl e \<Rightarrow> False
                | Inr resp \<Rightarrow> length (post_body resp)
                               < length (concat (map snd (files same_name_request))))"
    using fewer by (simp only: answered sum.case)
  have stored: "fs (snd ?out) ''/data/a9/993e364706816aba3e25717850c26c9cd0d89d''
                  = Some (File ''abc'')
                \<and> fs (snd ?out) ''/data/aa/f4c61ddcc5e8a2dabede0f3b482cd9aea9434d''
                  = Some (File ''hello'')"
    by (simp add: upload_defs handler_defs example_defs string_defs)
  from two answered short im stored show ?thesis by blast
qed

section \<open>Recording the upload for the caller\<close>

text \<open>
  Claim C9, as amended. For every file of a batch the association of the caller with the
  digest is recorded first: after the loop body has run, whatever its outcome, the
  association is the last one recorded, and \<open>add_image\<close> is the first effect of the body,
  before the directory is looked at and before any write. In particular, when the write is
  attempted and fails, the file is reported as \<open>FAIL\<close> with status 500 and the association
  is recorded all the same, the attempt to write coming after it.
\<close>

theorem association_recorded_first:
  fixes env uid url x ret st s
  defines "h \<equiv> sha1_hexdigest env (body x)"
  defines "out \<equiv> upload_one env uid url x (ret, st) s"
  shows "images (snd out) = images s @ [(uid, h)]
       \<and> (\<exists>evs. trace (snd out) = trace s @ AddImage uid h # evs)
       \<and> (fst (make_shard_dir env (shard_dir env (body x)) (add_image uid h s)) = Inr ()
            \<and> write_failed env uid x s
          \<longrightarrow> fst out = Inr (od_set ret (filename x) ''FAIL'', 500)
              \<and> (uid, h) \<in> set (images (snd out))
              \<and> (\<exists>evs. trace (snd out)
                         = trace s @ AddImage uid h # evs @ [OpenWrite (blob_path env (body x))]))"
proof -
  have im: "images (snd out) = images s @ [(uid, h)]"
    by (simp add: out_def h_def upload_one_snd file_result_state)
  have tr: "\<exists>evs. trace (snd out) = trace s @ AddImage uid h # evs"
    unfolding out_def h_def upload_one_snd by (rule file_result_state(4))
  have fail: "fst out = Inr (od_set ret (filename x) ''FAIL'', 500)
              \<and> (uid, h) \<in> set (images (snd out))
              \<and> (\<exists>evs. trace (snd out)
                         = trace s @ AddImage uid h # evs @ [OpenWrite (blob_path env (body x))])"
    if "fst (make_shard_dir env (shard_dir env (body x)) (add_image uid h s)) = Inr ()
            \<and> write_failed env uid x s"
    using upload_one_write_failed[of env x uid s url ret st] that im
    by (simp add: out_def h_def)
  from im tr fail show ?thesis by blast
qed

theorem association_recorded_first_witness:
  "fst (upload_one failing_write_env 1 ''http://img.example/i''
          \<lparr>filename = ''two.txt'', body = ''hello''\<rparr> ([], 200) empty_state)
     = Inr ([(''two.txt'', ''FAIL'')], 500)
   \<and> (1, ''aaf4c61ddcc5e8a2dabede0f3b482cd9aea9434d'')
       \<in> set (images (snd (upload_one failing_write_env 1 ''http://img.example/i''
                              \<lparr>filename = ''two.txt'', body = ''hello''\<rparr> ([], 200)
                              empty_state)))"
proof -
  have m: "fst (make_shard_dir failing_write_env
                  (shard_dir failing_write_env (body \<lparr>filename = ''two.txt'', body = ''hello''\<rparr>))
                  (add_image 1 (sha1_hexdigest failing_write_env
                                  (body \<lparr>filename = ''two.txt'', body = ''hello''\<rparr>))
                     empty_state)) = Inr ()"
    by (simp add: upload_defs shard_dir_def example_defs string_defs handler_defs)
  have w: "write_failed failing_write_env 1 \<lparr>filename = ''two.txt'', body = ''hello''\<rparr>
             empty_state"
    by (simp add: write_failed_def store_blob_def blob_path_def shard_dir_def upload_defs
                  example_defs string_defs handler_defs)
  have h: "sha1_hexdigest failing_write_env ''hello''
           = ''aaf4c61ddcc5e8a2dabede0f3b482cd9aea9434d''"
    by (simp add: upload_defs example_defs)
  from association_recorded_first[where env = failing_write_env
         and x = "\<lparr>filename = ''two.txt'', body = ''hello''\<rparr>" and uid = 1
         and s = empty_state and url = "''http://img.example/i''" and ret = "[]"
         and st = 200] m w h
  show ?thesis by simp
qed

text \<open>
  The claim as stated fails: the write of the only file fails, no file exists at its path
  afterwards, and the association is recorded, before the attempt to write.
\<close>

theorem association_without_file_counterexample:
  "fst (IndexHandler_post failing_write_env single_file_request empty_state)
     = Inr \<lparr>post_status = 500, post_body = [''FAIL'' @ [CHR 0x0A]]\<rparr>
   \<and> images (snd (IndexHandler_post failing_write_env single_file_request empty_state))
     = [(1, ''aaf4c61ddcc5e8a2dabede0f3b482cd9aea9434d'')]
   \<and> fs (snd (IndexHandler_post failing_write_env single_file_request empty_state))
        ''/data/aa/f4c61ddcc5e8a2dabede0f3b482cd9aea9434d'' = None
   \<and> trace (snd (IndexHandler_post failing_write_env single_file_request empty_state))
     = [AddUser ''192.0.2.7'', AddImage 1 ''aaf4c61ddcc5e8a2dabede0f3b482cd9aea9434d'',
        Mkdir ''/data/aa'', OpenWrite ''/data/aa/f4c61ddcc5e8a2dabede0f3b482cd9aea9434d'']"
  by (simp add: upload_defs handler_defs example_defs string_defs)

section \<open>A write that fails in a batch\<close>

text \<open>
  Claim C6, as amended. Take an upload whose files have pairwise distinct client filenames,
  and suppose that nothing raises outside the \<open>try\<close> block: \<open>mkdir\<close> succeeds for the shard
  directories of the files and the sniffer can read the output of \<open>file\<close> for their paths.
  Then the request is answered, every file is processed in turn and has its own result, in
  order: \<open>FAIL\<close> exactly for the files whose write was attempted and raised \<open>IOError\<close>, and
  for every other file a URL made of its own digest, that file existing in the store
  afterwards. With more than one file the body is one line \<open>filename: result\<close> per file.
  The status is 500 when some write failed and 200 otherwise.
\<close>

theorem write_failure_is_isolated:
  fixes env req s
  defines "fl \<equiv> concat (map snd (files req))"
  defines "url \<equiv> full_url req"
  assumes caller: "caller req s = (Inr uid, s1)"
    and some: "fl \<noteq> []"
    and names: "distinct (map filename fl)"
    and mkdir: "\<forall>x\<in>set fl. \<forall>t. mkdir_ok env t (shard_dir env (body x))"
    and sniff: "\<forall>x\<in>set fl. \<forall>t f. sniff_ok env t (blob_path env (body x)) f"
  shows "\<exists>resp s' kvs.
           IndexHandler_post env req s = (Inr resp, s')
         \<and> file_results env uid url fl s1 = (Inr kvs, s')
         \<and> length kvs = length fl
         \<and> (length fl > 1 \<longrightarrow>
              post_body resp = map (\<lambda>(k, v). k @ '': '' @ v @ [CHR 0x0A]) kvs)
         \<and> (\<forall>i<length fl.
               fst (kvs ! i) = filename (fl ! i)
             \<and> (write_failed env uid (fl ! i) (snd (file_results env uid url (take i fl) s1))
                  \<longrightarrow> snd (kvs ! i) = ''FAIL'')
             \<and> (\<not> write_failed env uid (fl ! i) (snd (file_results env uid url (take i fl) s1))
                  \<longrightarrow> (\<exists>ftype. snd (kvs ! i)
                          = rstrip CHR ''/'' url @ ''/''
                              @ public_fragment env (body (fl ! i)) ftype)
                     \<and> fs s' (blob_path env (body (fl ! i))) \<noteq> None))
         \<and> (post_status resp
              = (if \<exists>i<length fl. write_failed env uid (fl ! i)
                                     (snd (file_results env uid url (take i fl) s1))
                 then 500 else 200))"
proof -
  from file_results_total[OF mkdir sniff] obtain kvs s'
    where r: "file_results env uid url fl s1 = (Inr kvs, s')" by blast
  let ?resp = "\<lparr>post_status = (if ''FAIL'' \<in> set (map snd kvs) then 500 else 200),
                 post_body = write_results (od_sets kvs [])\<rparr>"
  from some have fne: "files req \<noteq> []" by (auto simp: fl_def)
  have post: "IndexHandler_post env req s = (Inr ?resp, s')"
    using caller fne r by (simp add: IndexHandler_post_unfold fl_def url_def)
  have keys: "map fst kvs = map filename fl"
    by (rule file_results_keys[OF r])
  have len: "length kvs = length fl"
    by (rule file_results_state(4)[OF r])
  have od: "od_sets kvs [] = kvs"
    using od_sets_distinct[of kvs] keys names by simp
  have body: "post_body ?resp = map (\<lambda>(k, v). k @ '': '' @ v @ [CHR 0x0A]) kvs"
    if "length fl > 1"
    using that len by (simp add: od write_results_def)
  have each: "fst (kvs ! i) = filename (fl ! i)
             \<and> (write_failed env uid (fl ! i) (snd (file_results env uid url (take i fl) s1))
                  \<longrightarrow> snd (kvs ! i) = ''FAIL'')
             \<and> (\<not> write_failed env uid (fl ! i) (snd (file_results env uid url (take i fl) s1))
                  \<longrightarrow> (\<exists>ftype. snd (kvs ! i)
                          = rstrip CHR ''/'' url @ ''/''
                              @ public_fragment env (body (fl ! i)) ftype)
                     \<and> fs s' (blob_path env (body (fl ! i))) \<noteq> None)"
    if i: "i < length fl" for i
  proof -
    from file_results_nth(1)[OF r i] obtain s2
      where one: "file_result env uid url (fl ! i)
                    (snd (file_results env uid url (take i fl) s1))
                  = (Inr (snd (kvs ! i)), s2)"
        and keep: "\<forall>q. fs s2 q \<noteq> None \<longrightarrow> fs s' q = fs s2 q" by blast
    from file_result_stored[OF one] keep file_results_nth(2)[OF r i]
    show ?thesis by auto
  qed
  have iff_i: "snd (kvs ! i) = ''FAIL'' \<longleftrightarrow>
               write_failed env uid (fl ! i) (snd (file_results env uid url (take i fl) s1))"
    if i: "i < length fl" for i
  proof -
    from file_results_nth(1)[OF r i] obtain s2
      where one: "file_result env uid url (fl ! i)
                    (snd (file_results env uid url (take i fl) s1))
                  = (Inr (snd (kvs ! i)), s2)" by blast
    from file_result_stored(1)[OF one] show ?thesis .
  qed
  have fail_iff: "''FAIL'' \<in> set (map snd kvs) \<longleftrightarrow>
                  (\<exists>i<length fl. write_failed env uid (fl ! i)
                                     (snd (file_results env uid url (take i fl) s1)))"
  proof
    assume "''FAIL'' \<in> set (map snd kvs)"
    then obtain i where i: "i < length kvs" and f: "snd (kvs ! i) = ''FAIL''"
      by (auto simp: in_set_conv_nth)
    from i len have i': "i < length fl" by simp
    from iff_i[OF i'] f have "write_failed env uid (fl ! i)
                               (snd (file_results env uid url (take i fl) s1))"
      by simp
    with i' show "\<exists>i<length fl. write_failed env uid (fl ! i)
                                     (snd (file_results env uid url (take i fl) s1))"
      by blast
  next
    assume "\<exists>i<length fl. write_failed env uid (fl ! i)
                                     (snd (file_results env uid url (take i fl) s1))"
    then obtain i where i: "i < length fl"
      and w: "write_failed env uid (fl ! i) (snd (file_results env uid url (take i fl) s1))"
      by blast
    from iff_i[OF i] w have "snd (kvs ! i) = ''FAIL''" by simp
    moreover from i len have "kvs ! i \<in> set kvs" by simp
    ultimately show "''FAIL'' \<in> set (map snd kvs)" by force
  qed
  have status: "post_status ?resp
              = (if \<exists>i<length fl. write_failed env uid (fl ! i)
                                     (snd (file_results env uid url (take i fl) s1))
                 then 500 else 200)"
    using fail_iff by simp
  from post r len body each status show ?thesis by blast
qed

end
